theory Spec2Isabelle
  imports Complex_Main "HOL-Library.List_Lexorder" "HOL-Library.Char_ord"
    "HOL-Library.Monad_Syntax"
begin

text \<open>
  A model of the orbit notebooks: the entry and exit tables of the latitude/longitude
  crossing notebook, the visibility tables and the propagation loop of the field-of-view
  notebook, the conversion from Cartesian coordinates to right ascension and declination,
  and the local sidereal time.  Dates and coordinates are real numbers here, the floats
  of the sidereal time are binary64 numbers, and what a cell raises is a value of
  \<open>py_error\<close>.
\<close>

section \<open>Latitude/longitude crossing tables\<close>

text \<open>
  The notebook \<^verbatim>\<open>Lat & Lon Crossing Detector\<close> reads the events of an entry logger and of an
  exit logger into two lists of rendered dates (\<^verbatim>\<open>lat_giris\<close>, \<^verbatim>\<open>lat_cikis\<close>), cuts both to
  the shorter length, puts them side by side and then walks over the rows, exchanging the
  two cells of a row whose entry compares greater than its exit.  The cells are Python
  strings and the test is Python's comparison on them, the lexicographic order of the
  characters by code point; the model is polymorphic in a linearly ordered type of cells,
  and a \<open>string\<close> is ordered as Python orders it.
\<close>

text \<open>\<^verbatim>\<open>df_giris[:min_length]\<close>, \<^verbatim>\<open>df_cikis[:min_length]\<close> and \<^verbatim>\<open>pd.concat(..., axis=1)\<close>.\<close>

definition concat_rows :: "'a list \<Rightarrow> 'a list \<Rightarrow> ('a \<times> 'a) list" where
  "concat_rows giris cikis =
     (let min_length = min (length giris) (length cikis)
      in zip (take min_length giris) (take min_length cikis))"

text \<open>The loop \<^verbatim>\<open>for i in range(len(lat_df))\<close>: one row after the other, in place.\<close>

fun order_adjustment :: "('a::linorder \<times> 'a) list \<Rightarrow> ('a \<times> 'a) list" where
  "order_adjustment [] = []"
| "order_adjustment ((entry, exit) # rows) =
     (if entry > exit then (exit, entry) else (entry, exit)) # order_adjustment rows"

definition lat_df :: "'a::linorder list \<Rightarrow> 'a list \<Rightarrow> ('a \<times> 'a) list" where
  "lat_df lat_giris lat_cikis = order_adjustment (concat_rows lat_giris lat_cikis)"

definition lon_df :: "'a::linorder list \<Rightarrow> 'a list \<Rightarrow> ('a \<times> 'a) list" where
  "lon_df lon_giris lon_cikis = order_adjustment (concat_rows lon_giris lon_cikis)"

section \<open>Visibility tables of the field-of-view notebook\<close>

text \<open>
  The notebook attaches an events logger to each of three detectors (ground field of view,
  elevation, and their boolean combination), propagates, and then turns each log into a
  table of entry date, exit date and duration.  A logged event carries the date of its
  state and the flag \<^verbatim>\<open>isIncreasing()\<close>, true when the detector's switching function goes
  from negative to positive.  Dates are seconds on a common time line;
  \<^verbatim>\<open>a.durationFrom(b)\<close> is \<open>a - b\<close>.  The table cells hold the rendered date
  (\<^verbatim>\<open>str(date).replace("T", " ==> ")\<close>); the model keeps the date itself.
\<close>

datatype py_error = NameError | ValueError

record event =
  isIncreasing :: bool
  getDate :: real

definition durationFrom :: "real \<Rightarrow> real \<Rightarrow> real" where
  "durationFrom a b = a - b"

text \<open>
  The variables of one table cell: the three lists and the entry date last assigned
  (\<^verbatim>\<open>gfov_entry\<close>, \<^verbatim>\<open>ele_entry\<close>, \<^verbatim>\<open>comb_entry\<close>), unbound until the first entry event.
\<close>

record cell_state =
  entry_date :: "real option"
  entry_list :: "real list"
  exit_list :: "real list"
  duration_list :: "real list"

definition empty_lists :: cell_state where
  "empty_lists = \<lparr>entry_date = None, entry_list = [], exit_list = [], duration_list = []\<rparr>"

text \<open>
  The loop \<^verbatim>\<open>for event in ..._events\<close>.  The three cells differ only in the test of the
  \<^verbatim>\<open>if\<close>, given here as \<open>is_entry\<close>.  Reading the entry date before any entry event
  was seen is Python's \<^verbatim>\<open>NameError\<close>.
\<close>

fun events_loop :: "(event \<Rightarrow> bool) \<Rightarrow> event list \<Rightarrow> cell_state \<Rightarrow> py_error + cell_state" where
  "events_loop is_entry [] st = Inr st"
| "events_loop is_entry (ev # evs) st =
     (if is_entry ev
      then events_loop is_entry evs
             (st\<lparr>entry_date := Some (getDate ev), entry_list := entry_list st @ [getDate ev]\<rparr>)
      else (case entry_date st of
              None \<Rightarrow> Inl NameError
            | Some en \<Rightarrow>
                events_loop is_entry evs
                  (st\<lparr>exit_list := exit_list st @ [getDate ev],
                      duration_list := duration_list st @ [durationFrom (getDate ev) en / 60]\<rparr>)))"

text \<open>
  \<^verbatim>\<open>pd.DataFrame({...})\<close> from three columns: pandas raises \<^verbatim>\<open>ValueError\<close> unless all
  columns have the same length.
\<close>

definition DataFrame :: "real list \<Rightarrow> real list \<Rightarrow> real list \<Rightarrow> py_error + (real \<times> real \<times> real) list" where
  "DataFrame entries exits durations =
     (if length entries = length exits \<and> length exits = length durations
      then Inr (zip entries (zip exits durations))
      else Inl ValueError)"

definition events_table :: "(event \<Rightarrow> bool) \<Rightarrow> event list \<Rightarrow> py_error + (real \<times> real \<times> real) list" where
  "events_table is_entry events =
     (case events_loop is_entry events empty_lists of
        Inl err \<Rightarrow> Inl err
      | Inr st \<Rightarrow> DataFrame (entry_list st) (exit_list st) (duration_list st))"

text \<open>Ground field of view: \<^verbatim>\<open>if not event.isIncreasing()\<close> is the entry branch.\<close>

definition gfov_loop :: "event list \<Rightarrow> py_error + cell_state" where
  "gfov_loop gfov_events = events_loop (\<lambda>ev. \<not> isIncreasing ev) gfov_events empty_lists"

definition df_gfov :: "event list \<Rightarrow> py_error + (real \<times> real \<times> real) list" where
  "df_gfov gfov_events = events_table (\<lambda>ev. \<not> isIncreasing ev) gfov_events"

text \<open>Elevation: \<^verbatim>\<open>if event.isIncreasing()\<close> is the entry branch.\<close>

definition ele_loop :: "event list \<Rightarrow> py_error + cell_state" where
  "ele_loop ele_events = events_loop isIncreasing ele_events empty_lists"

definition df_ele :: "event list \<Rightarrow> py_error + (real \<times> real \<times> real) list" where
  "df_ele ele_events = events_table isIncreasing ele_events"

text \<open>Combined detector: \<^verbatim>\<open>if event.isIncreasing()\<close> is the entry branch.\<close>

definition comb_loop :: "event list \<Rightarrow> py_error + cell_state" where
  "comb_loop comb_events = events_loop isIncreasing comb_events empty_lists"

definition df_comb :: "event list \<Rightarrow> py_error + (real \<times> real \<times> real) list" where
  "df_comb comb_events = events_table isIncreasing comb_events"

text \<open>
  Logs as the detectors are meant to produce them: dates in nondecreasing order, and
  entry and exit events in turn, an entry first.
\<close>

definition chronological :: "event list \<Rightarrow> bool" where
  "chronological events = sorted (map getDate events)"

fun alternating :: "(event \<Rightarrow> bool) \<Rightarrow> bool \<Rightarrow> event list \<Rightarrow> bool" where
  "alternating is_entry expect [] = True"
| "alternating is_entry expect (ev # evs) =
     (is_entry ev = expect \<and> alternating is_entry (\<not> expect) evs)"

section \<open>Detector configuration and the propagation loop\<close>

text \<open>
  \<^verbatim>\<open>GroundFieldOfViewDetector(...).withMaxCheck(5.0).withHandler(ContinueOnEvent())\<close>, and the
  loop that asks the propagator for the position every 10 seconds from the initial to the
  final date.  The propagator is a parameter, \<open>getPVCoordinates\<close>.
\<close>

datatype handler = ContinueOnEvent | StopOnEvent

record detector =
  maxCheck :: real
  withHandler :: handler

definition GFoVDetector :: detector where
  "GFoVDetector = \<lparr>maxCheck = 5.0, withHandler = ContinueOnEvent\<rparr>"

definition shift :: real where
  "shift = 10.0"

function propagation_loop :: "(real \<Rightarrow> 'p) \<Rightarrow> real \<Rightarrow> real \<Rightarrow> 'p list \<Rightarrow> 'p list" where
  "propagation_loop getPVCoordinates initialDate finalDate pos =
     (if initialDate \<le> finalDate
      then propagation_loop getPVCoordinates (initialDate + shift) finalDate
             (pos @ [getPVCoordinates initialDate])
      else pos)"
  by pat_completeness auto
termination
proof (relation "measure (\<lambda>(g, t, f, pos). nat (\<lfloor>(f - t) / 10\<rfloor> + 1))")
  show "wf (measure (\<lambda>(g :: real \<Rightarrow> 'p, t, f, pos :: 'p list). nat (\<lfloor>(f - t) / 10\<rfloor> + 1)))"
    by simp
next
  fix getPVCoordinates :: "real \<Rightarrow> 'p" and initialDate finalDate :: real and pos :: "'p list"
  assume le: "initialDate \<le> finalDate"
  have step: "(finalDate - (initialDate + shift)) / 10 = (finalDate - initialDate) / 10 - 1"
    by (simp add: shift_def field_simps)
  have nonneg: "0 \<le> \<lfloor>(finalDate - initialDate) / 10\<rfloor>"
    using le by simp
  have "\<lfloor>(finalDate - (initialDate + shift)) / 10\<rfloor> = \<lfloor>(finalDate - initialDate) / 10\<rfloor> - 1"
    unfolding step by simp
  with nonneg
  show "((getPVCoordinates, initialDate + shift, finalDate, pos @ [getPVCoordinates initialDate]),
         (getPVCoordinates, initialDate, finalDate, pos))
        \<in> measure (\<lambda>(g, t, f, pos). nat (\<lfloor>(f - t) / 10\<rfloor> + 1))"
    by simp
qed

declare propagation_loop.simps [simp del]

section \<open>Cartesian coordinates to right ascension and declination\<close>

text \<open>
  \<^verbatim>\<open>math.atan2(y, x)\<close> on real numbers: the angle of the point \<open>(x, y)\<close>, in the range
  from \<open>-pi\<close> (excluded) to \<open>pi\<close> (included), and 0 at the origin.
\<close>

definition atan2 :: "real \<Rightarrow> real \<Rightarrow> real" where
  "atan2 y x =
     (if 0 < x then arctan (y / x)
      else if x < 0 then (if 0 \<le> y then arctan (y / x) + pi else arctan (y / x) - pi)
      else if 0 < y then pi / 2
      else if y < 0 then - (pi / 2)
      else 0)"

definition degrees :: "real \<Rightarrow> real" where
  "degrees x = x * (180 / pi)"

definition radians :: "real \<Rightarrow> real" where
  "radians x = x * (pi / 180)"

definition cartesian_to_radec :: "real \<Rightarrow> real \<Rightarrow> real \<Rightarrow> real \<times> real" where
  "cartesian_to_radec x y z =
     (let ra = atan2 y x;
          dec = atan2 z (sqrt (x\<^sup>2 + y\<^sup>2));
          ra = degrees ra;
          ra = (if ra < 0 then ra + 360.0 else ra);
          dec = degrees dec
      in (ra, dec))"

text \<open>
  The checking cell: \<^verbatim>\<open>check_x\<close>, \<^verbatim>\<open>check_y\<close>, \<^verbatim>\<open>check_z\<close> from the two angles, each
  printed multiplied by \<open>R\<close>.
\<close>

definition check_xyz :: "real \<Rightarrow> real \<times> real \<Rightarrow> real \<times> real \<times> real" where
  "check_xyz R radec =
     (let ra = fst radec; dec = snd radec;
          check_x = cos (radians ra) * cos (radians dec);
          check_y = sin (radians ra) * cos (radians dec);
          check_z = sin (radians dec)
      in (R * check_x, R * check_y, R * check_z))"

section \<open>Universal time to local sidereal time\<close>

text \<open>
  The notebook computes with Python floats: IEEE 754 binary64 numbers, every operation
  rounded to the nearest float, ties to even.  A finite float is modelled as the real
  number it stands for.  \<open>pow2 k\<close> is the power of two with exponent \<open>k\<close>, \<open>expo x\<close>
  the exponent of the binade of \<open>x\<close>, found by halving or doubling, and \<open>quantum x\<close> the
  distance of neighbouring floats there: 52 binary digits below the exponent, and from
  exponent -1022 down (the subnormal numbers) constant.
\<close>

definition pow2 :: "int \<Rightarrow> real" where
  "pow2 k = (if 0 \<le> k then 2 ^ nat k else 1 / 2 ^ nat (- k))"

function expo_up :: "real \<Rightarrow> int" where
  "expo_up x = (if x < 2 then 0 else expo_up (x / 2) + 1)"
  by pat_completeness auto
termination
proof (relation "measure (\<lambda>x. nat \<lfloor>x\<rfloor>)")
  show "wf (measure (\<lambda>x :: real. nat \<lfloor>x\<rfloor>))"
    by simp
next
  fix x :: real
  assume "\<not> x < 2"
  then have "x / 2 \<le> x - 1" by simp
  then have "\<lfloor>x / 2\<rfloor> \<le> \<lfloor>x - 1\<rfloor>" by (rule floor_mono)
  moreover from \<open>\<not> x < 2\<close> have "2 \<le> \<lfloor>x\<rfloor>" by (simp add: le_floor_iff)
  ultimately show "(x / 2, x) \<in> measure (\<lambda>x. nat \<lfloor>x\<rfloor>)"
    by simp
qed

declare expo_up.simps [simp del]

function expo_down :: "real \<Rightarrow> int" where
  "expo_down x = (if 1 \<le> x \<or> x \<le> 0 then 0 else expo_down (x * 2) - 1)"
  by pat_completeness auto
termination
proof (relation "measure (\<lambda>x. nat \<lceil>1 / x\<rceil>)")
  show "wf (measure (\<lambda>x :: real. nat \<lceil>1 / x\<rceil>))"
    by simp
next
  fix x :: real
  assume "\<not> (1 \<le> x \<or> x \<le> 0)"
  then have x: "0 < x" "x < 1" by simp_all
  define a where "a = 1 / x"
  from x have a: "1 < a" by (simp add: a_def)
  have half: "1 / (x * 2) = a / 2" by (simp add: a_def)
  have up: "a \<le> of_int \<lceil>a\<rceil>" by (rule le_of_int_ceiling)
  with a have "(1::real) < of_int \<lceil>a\<rceil>" by linarith
  then have one: "1 < \<lceil>a\<rceil>" by linarith
  then have two: "(2::real) \<le> of_int \<lceil>a\<rceil>" by linarith
  from up two have "a / 2 \<le> of_int \<lceil>a\<rceil> - 1" by linarith
  then have "a / 2 \<le> of_int (\<lceil>a\<rceil> - 1)" by simp
  then have "\<lceil>a / 2\<rceil> \<le> \<lceil>a\<rceil> - 1"
    by (simp only: ceiling_le_iff)
  with one have "nat \<lceil>a / 2\<rceil> < nat \<lceil>a\<rceil>" by linarith
  then have "nat \<lceil>1 / (x * 2)\<rceil> < nat \<lceil>1 / x\<rceil>"
    by (simp only: half a_def [symmetric])
  then show "(x * 2, x) \<in> measure (\<lambda>x. nat \<lceil>1 / x\<rceil>)"
    by (simp only: in_measure)
qed

declare expo_down.simps [simp del]

definition expo :: "real \<Rightarrow> int" where
  "expo x = (if 1 \<le> \<bar>x\<bar> then expo_up \<bar>x\<bar> else expo_down \<bar>x\<bar>)"

text \<open>
  Rounding to the nearest integer, a tie to the even one, and with it rounding of a real
  number to the nearest float.  A result of magnitude \<open>2 ^ 1024\<close> or more is not a finite
  float: Python gives \<^verbatim>\<open>inf\<close> or \<^verbatim>\<open>nan\<close> or raises \<^verbatim>\<open>OverflowError\<close>, all of them
  \<open>None\<close> here.
\<close>

definition rne :: "real \<Rightarrow> int" where
  "rne x =
     (let f = \<lfloor>x\<rfloor>; r = x - of_int f
      in if r < 1 / 2 then f
         else if 1 / 2 < r then f + 1
         else if even f then f else f + 1)"

definition quantum :: "real \<Rightarrow> real" where
  "quantum x = pow2 (max (expo x) (- 1022) - 52)"

definition fl :: "real \<Rightarrow> real" where
  "fl x = of_int (rne (x / quantum x)) * quantum x"

definition flt :: "real \<Rightarrow> real option" where
  "flt x = (if \<bar>fl x\<bar> < 2 ^ 1024 then Some (fl x) else None)"

text \<open>
  A decimal literal is the float nearest to it.  An integer becomes a float where it
  meets one; \<^verbatim>\<open>/\<close> of two integers is the correctly rounded quotient.  \<^verbatim>\<open>+\<close>, \<^verbatim>\<open>-\<close>,
  \<^verbatim>\<open>*\<close>, \<^verbatim>\<open>/\<close> of floats round their exact result; \<^verbatim>\<open>**\<close> calls the \<^verbatim>\<open>pow\<close> of the C
  library, taken here to round correctly as well.  \<^verbatim>\<open>int(x)\<close> of a float cuts towards zero.
\<close>

definition literal :: "real \<Rightarrow> real" where
  "literal x = fl x"

definition float_of_int :: "int \<Rightarrow> real option" where
  "float_of_int n = flt (of_int n)"

definition int_div :: "int \<Rightarrow> int \<Rightarrow> real option" where
  "int_div a b = (if b = 0 then None else flt (of_int a / of_int b))"

definition fadd :: "real \<Rightarrow> real \<Rightarrow> real option" where
  "fadd a b = flt (a + b)"

definition fsub :: "real \<Rightarrow> real \<Rightarrow> real option" where
  "fsub a b = flt (a - b)"

definition fmul :: "real \<Rightarrow> real \<Rightarrow> real option" where
  "fmul a b = flt (a * b)"

definition fdiv :: "real \<Rightarrow> real \<Rightarrow> real option" where
  "fdiv a b = (if b = 0 then None else flt (a / b))"

definition fpow :: "real \<Rightarrow> nat \<Rightarrow> real option" where
  "fpow a n = flt (a ^ n)"

definition py_int :: "real \<Rightarrow> int" where
  "py_int x = (if x < 0 then \<lceil>x\<rceil> else \<lfloor>x\<rfloor>)"

text \<open>
  \<^verbatim>\<open>vx % wx\<close> on floats: the remainder \<^verbatim>\<open>fmod(vx, wx)\<close> of the C library, which is exact and
  has the sign of \<open>vx\<close>; when it is not zero and its sign differs from the sign of \<open>wx\<close>,
  \<open>wx\<close> is added to it, and this addition is a float addition, which rounds.  A zero divisor
  raises \<^verbatim>\<open>ZeroDivisionError\<close>.
\<close>

definition float_mod :: "real \<Rightarrow> real \<Rightarrow> real option" where
  "float_mod vx wx =
     (if wx = 0 then None
      else let m = vx - wx * of_int (py_int (vx / wx))
           in if m \<noteq> 0 \<and> ((wx < 0) \<noteq> (m < 0)) then flt (m + wx) else Some m)"

text \<open>
  The cells of the notebook.  Year, month, day, hour and minute are read with
  \<^verbatim>\<open>int(...)\<close>; second and longitude are read with \<^verbatim>\<open>float(...)\<close>, which rounds the decimal
  number typed to the nearest float (the first two steps of \<open>teta\<close>).
\<close>

definition UT :: "int \<Rightarrow> int \<Rightarrow> real \<Rightarrow> real option" where
  "UT hour minute second =
     do { m \<leftarrow> int_div minute 60;
          h \<leftarrow> float_of_int hour;
          hm \<leftarrow> fadd h m;
          s \<leftarrow> fdiv second 3600;
          fadd hm s }"

definition J0 :: "int \<Rightarrow> int \<Rightarrow> int \<Rightarrow> real option" where
  "J0 year month day =
     do { a \<leftarrow> int_div (month + 9) 12;
          b \<leftarrow> int_div (7 * (year + py_int a)) 4;
          c \<leftarrow> int_div (275 * month) 9;
          n \<leftarrow> float_of_int (367 * year - py_int b + py_int c + day);
          fadd n (literal 1721013.5) }"

definition JD :: "int \<Rightarrow> int \<Rightarrow> int \<Rightarrow> int \<Rightarrow> int \<Rightarrow> real \<Rightarrow> real option" where
  "JD year month day hour minute second =
     do { j \<leftarrow> J0 year month day;
          u \<leftarrow> UT hour minute second;
          f \<leftarrow> fdiv u 24;
          fadd j f }"

definition T0 :: "int \<Rightarrow> int \<Rightarrow> int \<Rightarrow> real option" where
  "T0 year month day =
     do { j \<leftarrow> J0 year month day;
          d \<leftarrow> fsub j 2451545;
          fdiv d 36525 }"

definition teta_g0 :: "int \<Rightarrow> int \<Rightarrow> int \<Rightarrow> real option" where
  "teta_g0 year month day =
     do { T \<leftarrow> T0 year month day;
          a \<leftarrow> fmul (literal 36000.77004) T;
          b \<leftarrow> fadd (literal 100.4606184) a;
          T2 \<leftarrow> fpow T 2;
          c \<leftarrow> fmul (literal 0.000387933) T2;
          d \<leftarrow> fadd b c;
          k \<leftarrow> fmul (literal 2.583) (literal (1 / 10 ^ 8));
          T3 \<leftarrow> fpow T 3;
          e \<leftarrow> fmul k T3;
          fsub d e }"

definition teta_g :: "int \<Rightarrow> int \<Rightarrow> int \<Rightarrow> int \<Rightarrow> int \<Rightarrow> real \<Rightarrow> real option" where
  "teta_g year month day hour minute second =
     do { g0 \<leftarrow> teta_g0 year month day;
          u \<leftarrow> UT hour minute second;
          f \<leftarrow> fdiv u 24;
          r \<leftarrow> fmul (literal 360.98564724) f;
          fadd g0 r }"

definition teta :: "int \<Rightarrow> int \<Rightarrow> int \<Rightarrow> int \<Rightarrow> int \<Rightarrow> real \<Rightarrow> real \<Rightarrow> real option" where
  "teta year month day hour minute second longitude =
     do { s \<leftarrow> flt second;
          lon \<leftarrow> flt longitude;
          g \<leftarrow> teta_g year month day hour minute s;
          sum \<leftarrow> fadd g lon;
          float_mod sum 360 }"

section \<open>Boolean combination of indicator functions and the event scanner\<close>

text \<open>
  Modelled from the spec: the combinator behind \<^verbatim>\<open>BooleanDetector.notCombine\<close> and
  \<^verbatim>\<open>BooleanDetector.andCombine\<close>, which the notebook calls and does not define.  An
  indicator function maps a state to a real value and declares its maximum-check interval.
  A node is a leaf indicator function or an operator over one or two nodes; it is evaluated
  by evaluating the children and combining their signed values: \<open>NOT(a) = -a\<close>,
  \<open>AND(a, b) = min(a, b)\<close>, \<open>OR(a, b) = max(a, b)\<close>.  The interval that governs a node is
  the shortest one of its components.
\<close>

datatype direction = Entering | Exiting

text \<open>
The opposite direction, to state what a negation does to a crossing.
\<close>

fun reversed :: "direction \<Rightarrow> direction" where
  "reversed Entering = Exiting"
| "reversed Exiting = Entering"





text \<open>
  Modelled from the spec: occurrences, the scan configuration, and the result of a scan:
  the event log, the number of crossings skipped for a degenerate bracket, and the error
  that ended the scan, if any.  The numeric tolerance and the bound on the iterations of a
  refinement are parameters of the scanner.
\<close>

record occurrence =
  timestamp :: real
  direction :: direction
  source :: string

datatype on_event = Continue | StopAtFirst

record scan_configuration =
  startTime :: real
  endTime :: real
  stepBudget :: real
  resolutionEpsilon :: real
  onEvent :: on_event


datatype scan_error = StateUnavailable | InvalidStepBudget

record scan_result =
  eventLog :: "occurrence list"
  skipped :: nat
  failure :: "scan_error option"











text \<open>
  To compare the scan of a negated indicator with the scan of the indicator itself:
  \<open>negated g\<close> is the negated value in time; an occurrence mirrors another one when it has
  the same timestamp and source and the reversed direction, or both lie at a sample that is
  zero and is followed by a zero sample.
\<close>

definition negated :: "(real \<Rightarrow> real option) \<Rightarrow> real \<Rightarrow> real option" where
  "negated g t = map_option uminus (g t)"

definition mirrors :: "scan_configuration \<Rightarrow> (real \<Rightarrow> real option) \<Rightarrow> occurrence \<Rightarrow> occurrence \<Rightarrow> bool" where
  "mirrors cfg g occ' occ =
     (timestamp occ' = timestamp occ \<and> source occ' = source occ \<and>
      (direction occ' = reversed (direction occ) \<or>
       g (timestamp occ) = Some 0 \<and> g (timestamp occ + stepBudget cfg) = Some 0))"


definition mirrored :: "scan_configuration \<Rightarrow> (real \<Rightarrow> real option) \<Rightarrow> scan_result \<Rightarrow> scan_result \<Rightarrow> bool" where
  "mirrored cfg g res' res =
     (list_all2 (mirrors cfg g) (eventLog res') (eventLog res) \<and>
      skipped res' = skipped res \<and> failure res' = failure res)"

section \<open>Properties of the crossing tables\<close>

lemma length_concat_rows:
  "length (concat_rows giris cikis) = min (length giris) (length cikis)"
  by (simp add: concat_rows_def Let_def)

lemma length_order_adjustment: "length (order_adjustment rows) = length rows"
  by (induction rows rule: order_adjustment.induct) simp_all

lemma order_adjustment_map:
  "order_adjustment rows = map (\<lambda>(e, x). (min e x, max e x)) rows"
  by (induction rows rule: order_adjustment.induct) (auto simp: min_def max_def)

lemma concat_rows_nth:
  "i < min (length giris) (length cikis) \<Longrightarrow> concat_rows giris cikis ! i = (giris ! i, cikis ! i)"
  by (simp add: concat_rows_def Let_def)

lemma order_adjustment_ordered: "(e, x) \<in> set (order_adjustment rows) \<Longrightarrow> e \<le> x"
  by (induction rows rule: order_adjustment.induct) (auto split: if_splits)

lemma crossing_table_nth:
  "i < min (length giris) (length cikis) \<Longrightarrow>
     order_adjustment (concat_rows giris cikis) ! i =
       (if giris ! i > cikis ! i then (cikis ! i, giris ! i) else (giris ! i, cikis ! i))"
proof -
  assume i: "i < min (length giris) (length cikis)"
  then have "i < length (concat_rows giris cikis)"
    by (simp add: length_concat_rows)
  then have "order_adjustment (concat_rows giris cikis) ! i =
      (\<lambda>(e, x). (min e x, max e x)) (concat_rows giris cikis ! i)"
    by (simp add: order_adjustment_map)
  also have "\<dots> = (min (giris ! i) (cikis ! i), max (giris ! i) (cikis ! i))"
    using i by (simp add: concat_rows_nth)
  finally show ?thesis
    by (auto simp: min_def max_def)
qed

lemma crossing_table_ordered:
  "w \<in> set (order_adjustment (concat_rows giris cikis)) \<Longrightarrow> fst w \<le> snd w"
  using order_adjustment_ordered [of "fst w" "snd w"] by simp

text \<open>
  Claim C2 at the failing input.  The cells of the two tables are rendered dates, and the
  swap test compares them as strings.  A date is rendered with as many fraction digits as
  it needs, so of two dates in the same second the earlier one can be the greater string:
  an entry at 05:00:00.500 and an exit at 05:00:00.50048828125 are in chronological
  order, the entry cell is the greater string, and both tables exchange the two cells and
  show the entry after the exit.
\<close>

theorem string_order_swaps_chronological_row:
  "lat_df [''2024-09-14T05:00:00.500Z''] [''2024-09-14T05:00:00.50048828125Z'']
     = [(''2024-09-14T05:00:00.50048828125Z'', ''2024-09-14T05:00:00.500Z'')]
   \<and> lon_df [''2024-09-14T05:00:00.500Z''] [''2024-09-14T05:00:00.50048828125Z'']
     = [(''2024-09-14T05:00:00.50048828125Z'', ''2024-09-14T05:00:00.500Z'')]
   \<and> ''2024-09-14T05:00:00.500Z'' > ''2024-09-14T05:00:00.50048828125Z''
   \<and> (0.500 :: real) < 0.50048828125"
  by (simp add: lat_df_def lon_df_def concat_rows_def)

section \<open>Properties of the visibility tables\<close>

lemma events_loop_lists:
  "events_loop is_entry evs st = Inr st' \<Longrightarrow>
     entry_list st' = entry_list st @ map getDate (filter is_entry evs) \<and>
     exit_list st' = exit_list st @ map getDate (filter (\<lambda>ev. \<not> is_entry ev) evs)"
proof (induction evs arbitrary: st)
  case Nil
  then show ?case by simp
next
  case (Cons ev evs)
  show ?case
  proof (cases "is_entry ev")
    case True
    with Cons.prems Cons.IH [of "st\<lparr>entry_date := Some (getDate ev), entry_list := entry_list st @ [getDate ev]\<rparr>"]
    show ?thesis by simp
  next
    case False
    with Cons.prems obtain en where en: "entry_date st = Some en"
      by (cases "entry_date st") simp_all
    with False Cons.prems
      Cons.IH [of "st\<lparr>exit_list := exit_list st @ [getDate ev],
                      duration_list := duration_list st @ [durationFrom (getDate ev) en / 60]\<rparr>"]
    show ?thesis by simp
  qed
qed

text \<open>
  Claim C1, as the code has it.  The elevation cell and the combined cell put an event in
  the entry list exactly when it is increasing and in the exit list exactly when it is
  not; the field-of-view cell does the opposite: there the decreasing events are the
  entries and the increasing events the exits.
\<close>

theorem direction_by_detector:
  "(gfov_loop gfov_events = Inr st1 \<longrightarrow>
      entry_list st1 = map getDate (filter (\<lambda>ev. \<not> isIncreasing ev) gfov_events) \<and>
      exit_list st1 = map getDate (filter isIncreasing gfov_events))
   \<and> (ele_loop ele_events = Inr st2 \<longrightarrow>
      entry_list st2 = map getDate (filter isIncreasing ele_events) \<and>
      exit_list st2 = map getDate (filter (\<lambda>ev. \<not> isIncreasing ev) ele_events))
   \<and> (comb_loop comb_events = Inr st3 \<longrightarrow>
      entry_list st3 = map getDate (filter isIncreasing comb_events) \<and>
      exit_list st3 = map getDate (filter (\<lambda>ev. \<not> isIncreasing ev) comb_events))"
  unfolding gfov_loop_def ele_loop_def comb_loop_def
  using events_loop_lists [of "\<lambda>ev. \<not> isIncreasing ev" gfov_events empty_lists st1]
    events_loop_lists [of isIncreasing ele_events empty_lists st2]
    events_loop_lists [of isIncreasing comb_events empty_lists st3]
  by (simp add: empty_lists_def)

theorem direction_by_detector_witness:
  "gfov_loop [\<lparr>isIncreasing = False, getDate = 1\<rparr>, \<lparr>isIncreasing = True, getDate = 2\<rparr>]
     = Inr \<lparr>entry_date = Some 1, entry_list = [1], exit_list = [2], duration_list = [1 / 60]\<rparr>
   \<and> ele_loop [\<lparr>isIncreasing = True, getDate = 1\<rparr>, \<lparr>isIncreasing = False, getDate = 2\<rparr>]
     = Inr \<lparr>entry_date = Some 1, entry_list = [1], exit_list = [2], duration_list = [1 / 60]\<rparr>
   \<and> comb_loop [\<lparr>isIncreasing = True, getDate = 1\<rparr>, \<lparr>isIncreasing = False, getDate = 2\<rparr>]
     = Inr \<lparr>entry_date = Some 1, entry_list = [1], exit_list = [2], duration_list = [1 / 60]\<rparr>
   \<and> [1] = map getDate (filter (\<lambda>ev. \<not> isIncreasing ev)
               [\<lparr>isIncreasing = False, getDate = 1\<rparr>, \<lparr>isIncreasing = True, getDate = 2\<rparr>])
   \<and> [2] = map getDate (filter isIncreasing
               [\<lparr>isIncreasing = False, getDate = 1\<rparr>, \<lparr>isIncreasing = True, getDate = 2\<rparr>])
   \<and> [1] = map getDate (filter isIncreasing
               [\<lparr>isIncreasing = True, getDate = 1\<rparr>, \<lparr>isIncreasing = False, getDate = 2\<rparr>])
   \<and> [2] = map getDate (filter (\<lambda>ev. \<not> isIncreasing ev)
               [\<lparr>isIncreasing = True, getDate = 1\<rparr>, \<lparr>isIncreasing = False, getDate = 2\<rparr>])"
  using direction_by_detector
    [of "[\<lparr>isIncreasing = False, getDate = 1\<rparr>, \<lparr>isIncreasing = True, getDate = 2\<rparr>]"
        "\<lparr>entry_date = Some 1, entry_list = [1], exit_list = [2], duration_list = [1 / 60]\<rparr>"
        "[\<lparr>isIncreasing = True, getDate = 1\<rparr>, \<lparr>isIncreasing = False, getDate = 2\<rparr>]"
        "\<lparr>entry_date = Some 1, entry_list = [1], exit_list = [2], duration_list = [1 / 60]\<rparr>"
        "[\<lparr>isIncreasing = True, getDate = 1\<rparr>, \<lparr>isIncreasing = False, getDate = 2\<rparr>]"
        "\<lparr>entry_date = Some 1, entry_list = [1], exit_list = [2], duration_list = [1 / 60]\<rparr>"]
  by (simp add: gfov_loop_def ele_loop_def comb_loop_def empty_lists_def durationFrom_def)

text \<open>
  Claim C1 as stated fails for the field-of-view cell: of a decreasing event at 1 and an
  increasing event at 2 the decreasing one is the entry and the increasing one the exit,
  and the log with the two flags exchanged does not give that window.
\<close>

theorem gfov_increasing_is_exit:
  "df_gfov [\<lparr>isIncreasing = False, getDate = 1\<rparr>, \<lparr>isIncreasing = True, getDate = 2\<rparr>]
     = Inr [(1, 2, 1 / 60)]
   \<and> df_gfov [\<lparr>isIncreasing = True, getDate = 1\<rparr>, \<lparr>isIncreasing = False, getDate = 2\<rparr>]
     \<noteq> Inr [(1, 2, 1 / 60)]"
  by (simp add: df_gfov_def events_table_def DataFrame_def empty_lists_def durationFrom_def)

text \<open>
  Claim C3 at the failing input.  A log that ends with an entry that has no exit leaves
  the entry list one longer than the exit list, and building the table raises
  \<^verbatim>\<open>ValueError\<close> in each of the three cells, where the latitude and longitude tables cut
  both lists to the shorter length and give the empty table.
\<close>

theorem unmatched_entry_raises:
  "df_gfov [\<lparr>isIncreasing = False, getDate = 1\<rparr>] = Inl ValueError
   \<and> df_ele [\<lparr>isIncreasing = True, getDate = 1\<rparr>] = Inl ValueError
   \<and> df_comb [\<lparr>isIncreasing = True, getDate = 1\<rparr>] = Inl ValueError
   \<and> lat_df [1::nat] [] = [] \<and> lon_df [1::nat] [] = []"
  by (simp add: df_gfov_def df_ele_def df_comb_def events_table_def DataFrame_def empty_lists_def
      lat_df_def lon_df_def concat_rows_def)

lemma events_loop_durations_nonneg:
  "sorted (map getDate evs) \<Longrightarrow>
   (\<And>en ev. entry_date st = Some en \<Longrightarrow> ev \<in> set evs \<Longrightarrow> en \<le> getDate ev) \<Longrightarrow>
   (\<And>d. d \<in> set (duration_list st) \<Longrightarrow> 0 \<le> d) \<Longrightarrow>
   events_loop is_entry evs st = Inr st' \<Longrightarrow>
   d \<in> set (duration_list st') \<Longrightarrow> 0 \<le> d"
proof (induction evs arbitrary: st)
  case Nil
  then show ?case by simp
next
  case (Cons ev evs)
  from Cons.prems(1) have sorted_tl: "sorted (map getDate evs)"
    and later: "\<And>ev'. ev' \<in> set evs \<Longrightarrow> getDate ev \<le> getDate ev'"
    by simp_all
  show ?case
  proof (cases "is_entry ev")
    case True
    let ?st = "st\<lparr>entry_date := Some (getDate ev), entry_list := entry_list st @ [getDate ev]\<rparr>"
    from True Cons.prems(4) have run: "events_loop is_entry evs ?st = Inr st'"
      by simp
    show ?thesis
    proof (rule Cons.IH [OF sorted_tl _ _ run Cons.prems(5)])
      fix en ev' assume "entry_date ?st = Some en" "ev' \<in> set evs"
      then show "en \<le> getDate ev'" using later by simp
    next
      fix d' assume "d' \<in> set (duration_list ?st)"
      then show "0 \<le> d'" using Cons.prems(3) by simp
    qed
  next
    case False
    with Cons.prems(4) obtain en where en: "entry_date st = Some en"
      by (cases "entry_date st") simp_all
    let ?st = "st\<lparr>exit_list := exit_list st @ [getDate ev],
                  duration_list := duration_list st @ [durationFrom (getDate ev) en / 60]\<rparr>"
    from False en Cons.prems(4) have run: "events_loop is_entry evs ?st = Inr st'"
      by simp
    from en Cons.prems(2) [of en ev] have le: "en \<le> getDate ev"
      by simp
    show ?thesis
    proof (rule Cons.IH [OF sorted_tl _ _ run Cons.prems(5)])
      fix en' ev' assume "entry_date ?st = Some en'" "ev' \<in> set evs"
      then show "en' \<le> getDate ev'" using Cons.prems(2) [of en' ev'] by simp
    next
      fix d' assume "d' \<in> set (duration_list ?st)"
      then show "0 \<le> d'" using Cons.prems(3) le by (auto simp: durationFrom_def)
    qed
  qed
qed

lemma events_loop_rows:
  "alternating is_entry True evs \<Longrightarrow>
   sorted (map getDate evs) \<Longrightarrow>
   events_loop is_entry evs st = Inr st' \<Longrightarrow>
   length (exit_list st) = length (entry_list st) \<Longrightarrow>
   length (duration_list st) = length (entry_list st) \<Longrightarrow>
   (\<And>r. r \<in> set (zip (entry_list st) (zip (exit_list st) (duration_list st))) \<Longrightarrow>
      fst r \<le> fst (snd r) \<and> snd (snd r) = (fst (snd r) - fst r) / 60) \<Longrightarrow>
   length (exit_list st') = length (entry_list st') \<Longrightarrow>
   r \<in> set (zip (entry_list st') (zip (exit_list st') (duration_list st'))) \<Longrightarrow>
   fst r \<le> fst (snd r) \<and> snd (snd r) = (fst (snd r) - fst r) / 60"
proof (induction evs arbitrary: st rule: induct_list012)
  case 1
  then show ?case by simp
next
  case (2 ev)
  then show ?case by (auto split: if_splits)
next
  case (3 ev1 ev2 evs)
  from "3.prems"(1) have e_g: "is_entry ev1" and e_e: "\<not> is_entry ev2"
    and alt: "alternating is_entry True evs"
    by simp_all
  from "3.prems"(2) have le: "getDate ev1 \<le> getDate ev2" and sorted_tl: "sorted (map getDate evs)"
    by simp_all
  let ?st = "st\<lparr>entry_date := Some (getDate ev1),
                entry_list := entry_list st @ [getDate ev1],
                exit_list := exit_list st @ [getDate ev2],
                duration_list := duration_list st @ [durationFrom (getDate ev2) (getDate ev1) / 60]\<rparr>"
  from e_g e_e "3.prems"(3) have run: "events_loop is_entry evs ?st = Inr st'"
    by simp
  show ?case
  proof (rule "3.IH"(1) [OF alt sorted_tl run _ _ _ "3.prems"(7) "3.prems"(8)])
    show "length (exit_list ?st) = length (entry_list ?st)"
      using "3.prems"(4) by simp
    show "length (duration_list ?st) = length (entry_list ?st)"
      using "3.prems"(5) by simp
    fix r' assume mem: "r' \<in> set (zip (entry_list ?st) (zip (exit_list ?st) (duration_list ?st)))"
    have "zip (entry_list ?st) (zip (exit_list ?st) (duration_list ?st)) =
        zip (entry_list st) (zip (exit_list st) (duration_list st)) @
        [(getDate ev1, getDate ev2, (getDate ev2 - getDate ev1) / 60)]"
      using "3.prems"(4,5) by (simp add: durationFrom_def)
    with mem consider
        (old) "r' \<in> set (zip (entry_list st) (zip (exit_list st) (duration_list st)))"
      | (new) "r' = (getDate ev1, getDate ev2, (getDate ev2 - getDate ev1) / 60)"
      by auto
    then show "fst r' \<le> fst (snd r') \<and> snd (snd r') = (fst (snd r') - fst r') / 60"
    proof cases
      case old
      then show ?thesis by (rule "3.prems"(6))
    next
      case new
      with le show ?thesis by simp
    qed
  qed
qed

lemma events_table_nonneg:
  assumes "chronological events" and "events_table is_entry events = Inr rows"
    and "(e, x, d) \<in> set rows"
  shows "0 \<le> d"
proof -
  from assms(2) obtain st where run: "events_loop is_entry events empty_lists = Inr st"
    and df: "DataFrame (entry_list st) (exit_list st) (duration_list st) = Inr rows"
    by (auto simp: events_table_def split: sum.splits)
  from df have rows: "rows = zip (entry_list st) (zip (exit_list st) (duration_list st))"
    by (auto simp: DataFrame_def split: if_splits)
  with assms(3) have "d \<in> set (duration_list st)"
    by (auto dest!: set_zip_rightD)
  with run assms(1) show ?thesis
    using events_loop_durations_nonneg [of events empty_lists is_entry st d]
    by (simp add: chronological_def empty_lists_def)
qed

lemma events_table_rows:
  assumes "chronological events" and "alternating is_entry True events"
    and "events_table is_entry events = Inr rows" and "(e, x, d) \<in> set rows"
  shows "e \<le> x \<and> d = (x - e) / 60"
proof -
  from assms(3) obtain st where run: "events_loop is_entry events empty_lists = Inr st"
    and df: "DataFrame (entry_list st) (exit_list st) (duration_list st) = Inr rows"
    by (auto simp: events_table_def split: sum.splits)
  from df have rows: "rows = zip (entry_list st) (zip (exit_list st) (duration_list st))"
    and len: "length (exit_list st) = length (entry_list st)"
    by (auto simp: DataFrame_def split: if_splits)
  from assms(4) rows
  have mem: "(e, x, d) \<in> set (zip (entry_list st) (zip (exit_list st) (duration_list st)))"
    by simp
  from events_loop_rows [of is_entry events empty_lists st "(e, x, d)"] assms(1,2) run len mem
  show ?thesis
    by (simp add: chronological_def empty_lists_def)
qed

text \<open>
  Claim C5, as the code has it.  For a log in chronological order, every duration in the
  table of each of the three cells is non-negative; if moreover entries and exits take
  turns, an entry first, every row has its entry at most its exit and its duration is
  the difference of the two in minutes, that is divided by 60.
\<close>

theorem fov_window_durations:
  "(chronological gfov_events \<and> df_gfov gfov_events = Inr rows_g \<and> (e_g, x_g, d_g) \<in> set rows_g \<longrightarrow>
      0 \<le> d_g \<and>
      (alternating (\<lambda>ev. \<not> isIncreasing ev) True gfov_events \<longrightarrow> e_g \<le> x_g \<and> d_g = (x_g - e_g) / 60))
   \<and> (chronological ele_events \<and> df_ele ele_events = Inr rows_e \<and> (e_e, x_e, d_e) \<in> set rows_e \<longrightarrow>
      0 \<le> d_e \<and>
      (alternating isIncreasing True ele_events \<longrightarrow> e_e \<le> x_e \<and> d_e = (x_e - e_e) / 60))
   \<and> (chronological comb_events \<and> df_comb comb_events = Inr rows_c \<and> (e_c, x_c, d_c) \<in> set rows_c \<longrightarrow>
      0 \<le> d_c \<and>
      (alternating isIncreasing True comb_events \<longrightarrow> e_c \<le> x_c \<and> d_c = (x_c - e_c) / 60))"
  unfolding df_gfov_def df_ele_def df_comb_def
  using events_table_nonneg [of gfov_events "\<lambda>ev. \<not> isIncreasing ev" rows_g e_g x_g d_g]
    events_table_rows [of gfov_events "\<lambda>ev. \<not> isIncreasing ev" rows_g e_g x_g d_g]
    events_table_nonneg [of ele_events isIncreasing rows_e e_e x_e d_e]
    events_table_rows [of ele_events isIncreasing rows_e e_e x_e d_e]
    events_table_nonneg [of comb_events isIncreasing rows_c e_c x_c d_c]
    events_table_rows [of comb_events isIncreasing rows_c e_c x_c d_c]
  by blast

theorem fov_window_durations_witness:
  "chronological [\<lparr>isIncreasing = False, getDate = 0\<rparr>, \<lparr>isIncreasing = True, getDate = 120\<rparr>]
   \<and> alternating (\<lambda>ev. \<not> isIncreasing ev) True
       [\<lparr>isIncreasing = False, getDate = 0\<rparr>, \<lparr>isIncreasing = True, getDate = 120\<rparr>]
   \<and> df_gfov [\<lparr>isIncreasing = False, getDate = 0\<rparr>, \<lparr>isIncreasing = True, getDate = 120\<rparr>]
       = Inr [(0, 120, 2)]
   \<and> chronological [\<lparr>isIncreasing = True, getDate = 0\<rparr>, \<lparr>isIncreasing = False, getDate = 120\<rparr>]
   \<and> alternating isIncreasing True
       [\<lparr>isIncreasing = True, getDate = 0\<rparr>, \<lparr>isIncreasing = False, getDate = 120\<rparr>]
   \<and> df_ele [\<lparr>isIncreasing = True, getDate = 0\<rparr>, \<lparr>isIncreasing = False, getDate = 120\<rparr>]
       = Inr [(0, 120, 2)]
   \<and> df_comb [\<lparr>isIncreasing = True, getDate = 0\<rparr>, \<lparr>isIncreasing = False, getDate = 120\<rparr>]
       = Inr [(0, 120, 2)]
   \<and> (0, 120, 2) \<in> set [(0::real, 120::real, 2::real)]
   \<and> (0::real) \<le> 2 \<and> (0::real) \<le> 120 \<and> (2::real) = (120 - 0) / 60"
  using fov_window_durations
    [where gfov_events = "[\<lparr>isIncreasing = False, getDate = 0\<rparr>, \<lparr>isIncreasing = True, getDate = 120\<rparr>]"
       and rows_g = "[(0, 120, 2)]" and e_g = 0 and x_g = 120 and d_g = 2
       and ele_events = "[\<lparr>isIncreasing = True, getDate = 0\<rparr>, \<lparr>isIncreasing = False, getDate = 120\<rparr>]"
       and rows_e = "[(0, 120, 2)]" and e_e = 0 and x_e = 120 and d_e = 2
       and comb_events = "[\<lparr>isIncreasing = True, getDate = 0\<rparr>, \<lparr>isIncreasing = False, getDate = 120\<rparr>]"
       and rows_c = "[(0, 120, 2)]" and e_c = 0 and x_c = 120 and d_c = 2]
  by (simp add: chronological_def df_gfov_def df_ele_def df_comb_def events_table_def
      DataFrame_def empty_lists_def durationFrom_def)

text \<open>
  Claim C5 as stated fails: an entry at 0 with an exit at 120 is reported with duration 2,
  not 120; a chronological log with two exits in a row followed by an entry gives the row
  (4, 3), whose entry is after its exit; and a log out of chronological order gives a
  negative duration.  The three cells do not reorder a row.
\<close>

theorem duration_not_difference:
  "df_ele [\<lparr>isIncreasing = True, getDate = 0\<rparr>, \<lparr>isIncreasing = False, getDate = 120\<rparr>]
     = Inr [(0, 120, 2)]
   \<and> (2::real) \<noteq> 120 - 0
   \<and> df_ele [\<lparr>isIncreasing = True, getDate = 1\<rparr>, \<lparr>isIncreasing = False, getDate = 2\<rparr>,
              \<lparr>isIncreasing = False, getDate = 3\<rparr>, \<lparr>isIncreasing = True, getDate = 4\<rparr>]
     = Inr [(1, 2, 1 / 60), (4, 3, 1 / 30)]
   \<and> df_comb [\<lparr>isIncreasing = True, getDate = 5\<rparr>, \<lparr>isIncreasing = False, getDate = 3\<rparr>]
     = Inr [(5, 3, - (1 / 30))]"
  by (simp add: df_ele_def df_comb_def events_table_def DataFrame_def empty_lists_def
      durationFrom_def)

lemma concat_rows_take:
  "concat_rows (take (min (length giris) (length cikis)) giris)
               (take (min (length giris) (length cikis)) cikis) = concat_rows giris cikis"
  by (simp add: concat_rows_def Let_def min_def)

text \<open>
  Claim C6, as the code has it.  The latitude and longitude tables are total: they have as
  many rows as the shorter of the two lists and are the tables of the two lists cut to
  that length, so what lies beyond it is dropped and leaves no trace in the result.
\<close>

theorem leftover_silently_dropped:
  "lat_df giris cikis =
     lat_df (take (min (length giris) (length cikis)) giris)
            (take (min (length giris) (length cikis)) cikis)
   \<and> length (lat_df giris cikis) = min (length giris) (length cikis)
   \<and> lon_df giris cikis =
     lon_df (take (min (length giris) (length cikis)) giris)
            (take (min (length giris) (length cikis)) cikis)
   \<and> length (lon_df giris cikis) = min (length giris) (length cikis)"
  by (simp add: lat_df_def lon_df_def concat_rows_take length_order_adjustment length_concat_rows)

text \<open>
  Claim C6 as stated fails: one leftover entry and two leftover entries give the same
  table, so the table does not tell how many occurrences were dropped.
\<close>

theorem dropped_count_not_reported:
  "lat_df [1::nat, 5] [2] = lat_df [1::nat, 5, 6] [2]
   \<and> length [1::nat, 5] + length [2::nat] - 2 * length (lat_df [1::nat, 5] [2]) = 1
   \<and> length [1::nat, 5, 6] + length [2::nat] - 2 * length (lat_df [1::nat, 5, 6] [2]) = 2
   \<and> lon_df [1::nat, 5] [2] = lon_df [1::nat, 5, 6] [2]"
  by (simp add: lat_df_def lon_df_def concat_rows_def)

section \<open>Properties of the propagation loop\<close>

lemma propagation_loop_samples:
  "propagation_loop getPVCoordinates initialDate finalDate pos =
     pos @ map (\<lambda>k. getPVCoordinates (initialDate + shift * real k))
             [0 ..< nat (\<lfloor>(finalDate - initialDate) / shift\<rfloor> + 1)]"
proof (induction getPVCoordinates initialDate finalDate pos rule: propagation_loop.induct)
  case (1 getPVCoordinates initialDate finalDate pos)
  show ?case
  proof (cases "initialDate \<le> finalDate")
    case False
    then have "(finalDate - initialDate) / shift < 0"
      by (simp add: shift_def)
    then have "\<lfloor>(finalDate - initialDate) / shift\<rfloor> < 0"
      by (simp add: floor_less_iff)
    then have "nat (\<lfloor>(finalDate - initialDate) / shift\<rfloor> + 1) = 0"
      by linarith
    with False show ?thesis
      by (subst propagation_loop.simps) (simp only: if_False upt_0 list.map append_Nil2)
  next
    case True
    let ?n = "nat (\<lfloor>(finalDate - (initialDate + shift)) / shift\<rfloor> + 1)"
    have "(finalDate - (initialDate + shift)) / shift = (finalDate - initialDate) / shift - 1"
      by (simp add: shift_def field_simps)
    then have fl: "\<lfloor>(finalDate - (initialDate + shift)) / shift\<rfloor>
        = \<lfloor>(finalDate - initialDate) / shift\<rfloor> - 1"
      by simp
    from True have "0 \<le> \<lfloor>(finalDate - initialDate) / shift\<rfloor>"
      by (simp add: shift_def)
    with fl have n: "nat (\<lfloor>(finalDate - initialDate) / shift\<rfloor> + 1) = Suc ?n"
      by linarith
    have "map (\<lambda>k. getPVCoordinates (initialDate + shift * real k)) [0 ..< Suc ?n]
        = getPVCoordinates initialDate
          # map (\<lambda>k. getPVCoordinates (initialDate + shift + shift * real k)) [0 ..< ?n]"
      by (simp add: upt_conv_Cons map_Suc_upt [symmetric] algebra_simps del: upt_Suc)
    with True "1.IH" n show ?thesis
      by (subst propagation_loop.simps) simp
  qed
qed

text \<open>
  Claim C4, as the code has it.  The propagation loop takes no account of the maximum
  check interval of a detector: the shift of 10 seconds between two samples is above the
  5 seconds set on the field-of-view detector, and the loop is not refused; it asks the
  propagator for the state at the initial date and at every further multiple of the shift
  up to the final date.
\<close>

theorem step_above_max_check_accepted:
  "maxCheck GFoVDetector < shift
   \<and> propagation_loop getPVCoordinates initialDate finalDate [] =
       map (\<lambda>k. getPVCoordinates (initialDate + shift * real k))
         [0 ..< nat (\<lfloor>(finalDate - initialDate) / shift\<rfloor> + 1)]"
  by (simp add: propagation_loop_samples) (simp add: GFoVDetector_def shift_def)

text \<open>
  Claim C4 as stated fails: with the maximum check interval at 5 and the shift at 10, a
  propagation from 0 to 20 samples the state three times and returns the samples.
\<close>

theorem step_above_max_check_samples:
  "maxCheck GFoVDetector = 5 \<and> shift = 10
   \<and> propagation_loop (\<lambda>t. (t, 0::real, 0::real)) 0 20 [] = [(0, 0, 0), (10, 0, 0), (20, 0, 0)]"
proof -
  have "propagation_loop (\<lambda>t. (t, 0::real, 0::real)) 0 20 [] =
      map (\<lambda>k. (0 + shift * real k, 0, 0)) [0 ..< nat (\<lfloor>(20 - 0) / shift\<rfloor> + 1)]"
    by (simp only: propagation_loop_samples append_Nil)
  also have "nat (\<lfloor>(20 - 0) / shift\<rfloor> + 1) = 3"
    by (simp add: shift_def)
  also have "[0 ..< 3] = [0, 1, 2::nat]"
    by (simp add: upt_conv_Cons)
  finally show ?thesis
    by (simp add: GFoVDetector_def shift_def)
qed

section \<open>Properties of the coordinate conversion\<close>

lemma sqrt_one_plus_ratio:
  fixes x y :: real
  assumes "x \<noteq> 0"
  shows "sqrt (1 + (y / x)\<^sup>2) = sqrt (x\<^sup>2 + y\<^sup>2) / \<bar>x\<bar>"
proof -
  from assms have "1 + (y / x)\<^sup>2 = (x\<^sup>2 + y\<^sup>2) / x\<^sup>2"
    by (simp add: power_divide field_simps)
  then show ?thesis
    by (simp add: real_sqrt_divide)
qed

lemma cos_sin_arctan_ratio:
  fixes x y :: real
  assumes "x \<noteq> 0"
  shows "cos (arctan (y / x)) = \<bar>x\<bar> / sqrt (x\<^sup>2 + y\<^sup>2)"
    and "sin (arctan (y / x)) = (y / x) * \<bar>x\<bar> / sqrt (x\<^sup>2 + y\<^sup>2)"
  using assms by (simp_all add: cos_arctan sin_arctan sqrt_one_plus_ratio)

lemma cos_atan2: "x \<noteq> 0 \<or> y \<noteq> 0 \<Longrightarrow> cos (atan2 y x) = x / sqrt (x\<^sup>2 + y\<^sup>2)"
proof -
  assume nz: "x \<noteq> 0 \<or> y \<noteq> 0"
  consider (pos) "0 < x" | (neg) "x < 0" | (zero) "x = 0" by linarith
  then show ?thesis
  proof cases
    case pos
    then show ?thesis by (simp add: atan2_def cos_sin_arctan_ratio)
  next
    case neg
    then show ?thesis by (simp add: atan2_def cos_sin_arctan_ratio)
  next
    case zero
    with nz show ?thesis by (simp add: atan2_def)
  qed
qed

lemma sin_atan2: "x \<noteq> 0 \<or> y \<noteq> 0 \<Longrightarrow> sin (atan2 y x) = y / sqrt (x\<^sup>2 + y\<^sup>2)"
proof -
  assume nz: "x \<noteq> 0 \<or> y \<noteq> 0"
  consider (pos) "0 < x" | (neg) "x < 0" | (zero) "x = 0" by linarith
  then show ?thesis
  proof cases
    case pos
    then show ?thesis by (simp add: atan2_def cos_sin_arctan_ratio)
  next
    case neg
    then show ?thesis by (simp add: atan2_def cos_sin_arctan_ratio)
  next
    case zero
    with nz show ?thesis by (auto simp: atan2_def)
  qed
qed

lemma radians_degrees: "radians (degrees a) = a"
  by (simp add: radians_def degrees_def)

lemma radians_degrees_360: "radians (degrees a + 360) = a + 2 * pi"
  by (simp add: radians_def degrees_def algebra_simps)

lemma cos_sin_ra:
  "cos (radians (fst (cartesian_to_radec x y z))) = cos (atan2 y x)"
  "sin (radians (fst (cartesian_to_radec x y z))) = sin (atan2 y x)"
  by (simp_all add: cartesian_to_radec_def Let_def radians_degrees radians_degrees_360)

lemma dec_radians:
  "radians (snd (cartesian_to_radec x y z)) = atan2 z (sqrt (x\<^sup>2 + y\<^sup>2))"
  by (simp add: cartesian_to_radec_def Let_def radians_degrees)

text \<open>
  Claim C9.  For real \<open>x\<close>, \<open>y\<close>, \<open>z\<close> whose distance \<open>R\<close> from the origin is positive, the
  checking cell applied to the right ascension and declination of \<open>(x, y, z)\<close> gives back
  \<open>(x, y, z)\<close> exactly.
\<close>

theorem radec_round_trip:
  assumes "0 < sqrt (x\<^sup>2 + y\<^sup>2 + z\<^sup>2)"
  shows "check_xyz (sqrt (x\<^sup>2 + y\<^sup>2 + z\<^sup>2)) (cartesian_to_radec x y z) = (x, y, z)"
proof -
  let ?r = "sqrt (x\<^sup>2 + y\<^sup>2)"
  let ?R = "sqrt (x\<^sup>2 + y\<^sup>2 + z\<^sup>2)"
  have r_nonneg: "0 \<le> ?r" by simp
  have r_sq: "?r\<^sup>2 = x\<^sup>2 + y\<^sup>2" by simp
  from assms have nz: "?r \<noteq> 0 \<or> z \<noteq> 0"
    by (auto simp: sum_power2_eq_zero_iff)
  have R_eq: "sqrt (?r\<^sup>2 + z\<^sup>2) = ?R"
    by (simp only: r_sq)
  from nz have cos_dec: "cos (atan2 z ?r) = ?r / ?R"
    using cos_atan2 [of ?r z] by (simp only: R_eq)
  from nz have sin_dec: "sin (atan2 z ?r) = z / ?R"
    using sin_atan2 [of ?r z] by (simp only: R_eq)
  have zpart: "?R * sin (atan2 z ?r) = z"
    using assms by (simp add: sin_dec)
  have xypart: "?R * (cos (atan2 y x) * cos (atan2 z ?r)) = x
      \<and> ?R * (sin (atan2 y x) * cos (atan2 z ?r)) = y"
  proof (cases "x = 0 \<and> y = 0")
    case True
    then have "?r = 0" by simp
    with cos_dec have dec0: "cos (atan2 z ?r) = 0" by simp
    from True show ?thesis unfolding dec0 by simp
  next
    case False
    then have xy: "x \<noteq> 0 \<or> y \<noteq> 0" by simp
    then have "?r \<noteq> 0"
      by (auto simp: sum_power2_eq_zero_iff)
    with assms show ?thesis
      by (simp add: cos_dec cos_atan2 [OF xy] sin_atan2 [OF xy])
  qed
  show ?thesis
    unfolding check_xyz_def Let_def cos_sin_ra dec_radians
    using xypart zpart by simp
qed

theorem radec_round_trip_witness:
  "0 < sqrt ((1000::real)\<^sup>2 + 2000\<^sup>2 + 3000\<^sup>2)
   \<and> check_xyz (sqrt (1000\<^sup>2 + 2000\<^sup>2 + 3000\<^sup>2)) (cartesian_to_radec 1000 2000 3000)
       = (1000, 2000, 3000)"
proof -
  have pos: "0 < sqrt ((1000::real)\<^sup>2 + 2000\<^sup>2 + 3000\<^sup>2)"
    by simp
  from pos radec_round_trip [OF pos] show ?thesis
    by simp
qed

section \<open>Properties of the sidereal time\<close>

lemma pow2_pos: "0 < pow2 k"
  by (simp add: pow2_def)

lemma pow2_add1: "pow2 (k + 1) = 2 * pow2 k"
proof (cases "0 \<le> k")
  case True
  then show ?thesis by (simp add: pow2_def nat_add_distrib)
next
  case False
  then have "nat (- k) = Suc (nat (- (k + 1)))" by simp
  with False show ?thesis by (simp add: pow2_def)
qed

lemma pow2_int: "pow2 (int n) = 2 ^ n"
  by (simp add: pow2_def)

lemma pow2_neg_int: "pow2 (- int n) = 1 / 2 ^ n"
proof (cases "n = 0")
  case True
  then show ?thesis by (simp add: pow2_def)
next
  case False
  then have "\<not> 0 \<le> - int n" by simp
  then show ?thesis by (simp add: pow2_def)
qed

lemma expo_up_unique: "2 ^ n \<le> x \<Longrightarrow> x < 2 ^ Suc n \<Longrightarrow> expo_up x = int n"
proof (induction n arbitrary: x)
  case 0
  then show ?case by (subst expo_up.simps) simp
next
  case (Suc n)
  have "(1::real) \<le> 2 ^ n" by (rule one_le_power) simp
  moreover from Suc.prems(1) have "2 * 2 ^ n \<le> x" by simp
  ultimately have "\<not> x < 2" by linarith
  moreover from Suc.prems have "expo_up (x / 2) = int n"
    by (intro Suc.IH) simp_all
  ultimately show ?case by (subst expo_up.simps) simp
qed

lemma expo_down_unique: "1 / 2 ^ Suc n \<le> x \<Longrightarrow> x < 1 / 2 ^ n \<Longrightarrow> expo_down x = - int (Suc n)"
proof (induction n arbitrary: x)
  case 0
  then have "expo_down (x * 2) = 0"
    by (subst expo_down.simps) simp
  with 0 show ?case by (subst expo_down.simps) simp
next
  case (Suc n)
  have "(0::real) < 1 / 2 ^ Suc (Suc n)" by simp
  with Suc.prems(1) have x: "0 < x" by linarith
  have "(1::real) \<le> 2 ^ Suc n" by (rule one_le_power) simp
  then have "(1::real) / 2 ^ Suc n \<le> 1" by (simp add: divide_le_eq_1)
  with Suc.prems(2) have x1: "x < 1" by linarith
  from Suc.prems have "expo_down (x * 2) = - int (Suc n)"
    by (intro Suc.IH) (simp_all add: field_simps)
  with x x1 show ?case by (subst expo_down.simps) simp
qed

lemma expo_unique:
  assumes "pow2 e \<le> \<bar>x\<bar>" and "\<bar>x\<bar> < pow2 (e + 1)"
  shows "expo x = e"
proof (cases "0 \<le> e")
  case True
  define n where "n = nat e"
  with True have e: "e = int n" by simp
  have "e + 1 = int (Suc n)" using e by simp
  with assms have lo: "2 ^ n \<le> \<bar>x\<bar>" and hi: "\<bar>x\<bar> < 2 ^ Suc n"
    unfolding e by (simp_all only: pow2_int)
  have "(1::real) \<le> 2 ^ n" by (rule one_le_power) simp
  with lo have "1 \<le> \<bar>x\<bar>" by linarith
  with lo hi show ?thesis
    by (simp add: expo_def expo_up_unique e)
next
  case False
  define n where "n = nat (- e - 1)"
  with False have e: "e = - int (Suc n)" by simp
  have e1: "e + 1 = - int n" using e by simp
  from assms(1) have lo: "1 / 2 ^ Suc n \<le> \<bar>x\<bar>"
    unfolding e pow2_neg_int .
  from assms(2) have hi: "\<bar>x\<bar> < 1 / 2 ^ n"
    unfolding e1 pow2_neg_int .
  have "(1::real) \<le> 2 ^ n" by (rule one_le_power) simp
  then have "(1::real) / 2 ^ n \<le> 1" by (simp add: divide_le_eq_1)
  with hi have "\<not> 1 \<le> \<bar>x\<bar>" by linarith
  with lo hi show ?thesis
    by (simp add: expo_def expo_down_unique e)
qed

lemma rne_unique: "\<bar>x - of_int n\<bar> < 1 / 2 \<Longrightarrow> rne x = n"
proof -
  assume a: "\<bar>x - of_int n\<bar> < 1 / 2"
  consider (lo) "x < of_int n" | (hi) "of_int n \<le> x" by linarith
  then show ?thesis
  proof cases
    case lo
    have "\<lfloor>x\<rfloor> = n - 1"
    proof (rule floor_unique)
      from a lo show "of_int (n - 1) \<le> x" by simp
      from lo show "x < of_int (n - 1) + 1" by simp
    qed
    moreover from a lo have "1 / 2 < x - of_int (n - 1)" by simp
    ultimately show ?thesis by (simp add: rne_def Let_def)
  next
    case hi
    have "\<lfloor>x\<rfloor> = n"
    proof (rule floor_unique)
      from hi show "of_int n \<le> x" .
      from a hi show "x < of_int n + 1" by linarith
    qed
    moreover from a hi have "x - of_int n < 1 / 2" by linarith
    ultimately show ?thesis by (simp add: rne_def Let_def)
  qed
qed

lemma fl_eval:
  assumes "pow2 e \<le> \<bar>x\<bar>" and "\<bar>x\<bar> < pow2 (e + 1)" and "- 1022 \<le> e"
    and "\<bar>x / pow2 (e - 52) - of_int n\<bar> < 1 / 2"
  shows "fl x = of_int n * pow2 (e - 52)"
proof -
  from assms(1,2) have "expo x = e" by (rule expo_unique)
  with assms(3) have "quantum x = pow2 (e - 52)"
    by (simp add: quantum_def max_def)
  with assms(4) show ?thesis
    by (simp add: fl_def rne_unique)
qed

lemma fl_zero: "fl 0 = 0"
  by (simp add: fl_def rne_def)

lemma expo_up_le: "x < 2 ^ Suc n \<Longrightarrow> expo_up x \<le> int n"
proof (induction n arbitrary: x)
  case 0
  then show ?case by (subst expo_up.simps) simp
next
  case (Suc n)
  show ?case
  proof (cases "x < 2")
    case True
    then show ?thesis by (subst expo_up.simps) simp
  next
    case False
    from Suc.prems have "expo_up (x / 2) \<le> int n"
      by (intro Suc.IH) simp
    with False show ?thesis by (subst expo_up.simps) simp
  qed
qed

lemma expo_down_le: "expo_down x \<le> 0"
proof (induction x rule: expo_down.induct)
  case (1 x)
  show ?case
  proof (cases "1 \<le> x \<or> x \<le> 0")
    case True
    then show ?thesis by (subst expo_down.simps) simp
  next
    case False
    with "1.IH" have "expo_down (x * 2) \<le> 0" by simp
    with False show ?thesis by (subst expo_down.simps) simp
  qed
qed

lemma expo_le: "\<bar>x\<bar> < 2 ^ Suc n \<Longrightarrow> expo x \<le> int n"
  using expo_up_le [of "\<bar>x\<bar>" n] expo_down_le [of "\<bar>x\<bar>"]
  by (auto simp: expo_def)

lemma rne_bounds: "\<lfloor>x\<rfloor> \<le> rne x \<and> rne x \<le> \<lceil>x\<rceil>"
proof -
  have "x - of_int \<lfloor>x\<rfloor> \<noteq> 0 \<Longrightarrow> \<lfloor>x\<rfloor> + 1 \<le> \<lceil>x\<rceil>"
    by (metis ceiling_altdef eq_iff_diff_eq_0 order_refl)
  moreover have "\<lfloor>x\<rfloor> \<le> \<lceil>x\<rceil>" by (rule floor_le_ceiling)
  ultimately show ?thesis
    by (auto simp: rne_def Let_def)
qed

lemma fl_range_360:
  assumes "0 \<le> y" and "y \<le> 360"
  shows "0 \<le> fl y \<and> fl y \<le> 360"
proof -
  define k where "k = max (expo y) (- 1022) - 52"
  have q: "quantum y = pow2 k" by (simp add: quantum_def k_def)
  from assms have "\<bar>y\<bar> < 2 ^ Suc 8" by simp
  then have "expo y \<le> 8" using expo_le [of y 8] by simp
  then have k3: "k \<le> 3" by (simp add: k_def)
  define N :: int where "N = 45 * 2 ^ nat (3 - k)"
  have "pow2 k * 2 ^ nat (3 - k) = 8"
  proof (cases "0 \<le> k")
    case True
    with k3 have "nat k + nat (3 - k) = 3" by simp
    then have "(2::real) ^ nat k * 2 ^ nat (3 - k) = 2 ^ 3"
      by (simp only: power_add [symmetric])
    with True show ?thesis by (simp add: pow2_def)
  next
    case False
    then have "nat (3 - k) = nat (- k) + 3" by simp
    then have "(2::real) ^ nat (3 - k) = 2 ^ nat (- k) * 2 ^ 3"
      by (simp only: power_add)
    with False show ?thesis by (simp add: pow2_def)
  qed
  then have Nq: "of_int N * pow2 k = 360"
    by (simp add: N_def mult.commute mult.left_commute)
  have qpos: "0 < pow2 k" by (rule pow2_pos)
  from assms(2) Nq qpos have "y / pow2 k \<le> of_int N"
    by (simp add: pos_divide_le_eq)
  then have "\<lceil>y / pow2 k\<rceil> \<le> N" by (simp add: ceiling_le_iff)
  with rne_bounds [of "y / pow2 k"] have "rne (y / pow2 k) \<le> N" by linarith
  then have "of_int (rne (y / pow2 k)) * pow2 k \<le> of_int N * pow2 k"
    using qpos by (simp add: mult_right_mono)
  with Nq have up: "fl y \<le> 360" by (simp add: fl_def q)
  from assms(1) qpos have "0 \<le> y / pow2 k" by simp
  then have "0 \<le> \<lfloor>y / pow2 k\<rfloor>" by simp
  with rne_bounds [of "y / pow2 k"] have "0 \<le> rne (y / pow2 k)" by linarith
  with qpos have "0 \<le> fl y" by (simp add: fl_def q)
  with up show ?thesis by simp
qed

lemma float_mod_range:
  assumes "float_mod vx 360 = Some t"
  shows "0 \<le> t \<and> t \<le> 360"
proof -
  define x where "x = vx / 360"
  define m where "m = vx - 360 * of_int (py_int x)"
  have vx: "vx = 360 * x" by (simp add: x_def)
  have m_bounds: "(x < 0 \<longrightarrow> - 360 < m \<and> m \<le> 0) \<and> (0 \<le> x \<longrightarrow> 0 \<le> m \<and> m < 360)"
  proof (cases "x < 0")
    case True
    have c1: "x \<le> of_int \<lceil>x\<rceil>" and c2: "of_int \<lceil>x\<rceil> < x + 1" by linarith+
    from True have "m = 360 * x - 360 * of_int \<lceil>x\<rceil>"
      by (simp add: m_def py_int_def vx)
    with c1 c2 have "- 360 < m \<and> m \<le> 0" by linarith
    with True show ?thesis by simp
  next
    case False
    have f1: "of_int \<lfloor>x\<rfloor> \<le> x" and f2: "x < of_int \<lfloor>x\<rfloor> + 1" by linarith+
    from False have "m = 360 * x - 360 * of_int \<lfloor>x\<rfloor>"
      by (simp add: m_def py_int_def vx)
    with f1 f2 have "0 \<le> m \<and> m < 360" by linarith
    with False show ?thesis by simp
  qed
  show ?thesis
  proof (cases "m < 0")
    case True
    with assms have "flt (m + 360) = Some t"
      by (simp add: float_mod_def Let_def m_def x_def)
    then have t: "t = fl (m + 360)"
      by (simp add: flt_def split: if_splits)
    from True m_bounds have "0 \<le> m + 360" "m + 360 \<le> 360"
      by (cases "x < 0"; simp)+
    with t show ?thesis using fl_range_360 [of "m + 360"] by simp
  next
    case False
    with assms have "t = m"
      by (auto simp: float_mod_def Let_def m_def x_def)
    with False m_bounds show ?thesis by (cases "x < 0"; simp)
  qed
qed

lemma py_int_zero: "- 1 < x \<Longrightarrow> x < 1 \<Longrightarrow> py_int x = 0"
  unfolding py_int_def by (auto intro: floor_unique ceiling_unique)

lemma flt_zero: "flt 0 = Some 0"
  by (simp add: flt_def fl_zero)

lemma flt_eval:
  assumes "pow2 e \<le> \<bar>x\<bar>" and "\<bar>x\<bar> < pow2 (e + 1)" and "- 1022 \<le> e"
    and "\<bar>x / pow2 (e - 52) - of_int n\<bar> < 1 / 2"
    and "\<bar>of_int n * pow2 (e - 52)\<bar> < 2 ^ 1024"
  shows "flt x = Some (of_int n * pow2 (e - 52))"
  using fl_eval [OF assms(1-4)] assms(5) by (simp add: flt_def)

lemma UT_midnight:
  "UT 0 0 0 = Some 0"
proof -
  have m: "int_div 0 60 = Some 0"
  proof -
    have "flt (of_int 0 / of_int 60) = Some 0"
      by (simp add: flt_zero)
    then show ?thesis by (simp add: int_div_def)
  qed
  have h: "float_of_int 0 = Some 0"
  proof -
    have "flt (of_int 0) = Some 0"
      by (simp add: flt_zero)
    then show ?thesis by (simp add: float_of_int_def)
  qed
  have hm: "fadd 0 0 = Some 0"
  proof -
    have "flt (0 + 0) = Some 0"
      by (simp add: flt_zero)
    then show ?thesis by (simp add: fadd_def)
  qed
  have s: "fdiv 0 3600 = Some 0"
  proof -
    have "flt (0 / 3600) = Some 0"
      by (simp add: flt_zero)
    then show ?thesis by (simp add: fdiv_def)
  qed
  show ?thesis
    by (simp only: UT_def m h hm s  Option.bind.simps)
qed

lemma J0_y2000:
  "J0 2000 1 1 = Some (of_int (5264651726094336) * pow2 (21 - 52))"
proof -
  have a: "int_div (1 + 9) 12 = Some (of_int (7505999378950827) * pow2 (- 1 - 52))"
  proof -
    have "flt (of_int (1 + 9) / of_int 12) = Some (of_int (7505999378950827) * pow2 (- 1 - 52))"
      by (rule flt_eval [where e = "- 1"]) (simp_all add: pow2_def power_divide)
    then show ?thesis by (simp add: int_div_def)
  qed
  have pa: "py_int (of_int (7505999378950827) * pow2 (- 1 - 52)) = 0"
    by (simp add: py_int_def pow2_def)
  have b: "int_div (7 * (2000 + 0)) 4 = Some (of_int (7696581394432000) * pow2 (11 - 52))"
  proof -
    have "flt (of_int (7 * (2000 + 0)) / of_int 4) = Some (of_int (7696581394432000) * pow2 (11 - 52))"
      by (rule flt_eval [where e = "11"]) (simp_all add: pow2_def power_divide)
    then show ?thesis by (simp add: int_div_def)
  qed
  have pb: "py_int (of_int (7696581394432000) * pow2 (11 - 52)) = 3500"
    by (simp add: py_int_def pow2_def)
  have c: "int_div (275 * 1) 9 = Some (of_int (8600624288381156) * pow2 (4 - 52))"
  proof -
    have "flt (of_int (275 * 1) / of_int 9) = Some (of_int (8600624288381156) * pow2 (4 - 52))"
      by (rule flt_eval [where e = "4"]) (simp_all add: pow2_def power_divide)
    then show ?thesis by (simp add: int_div_def)
  qed
  have pc: "py_int (of_int (8600624288381156) * pow2 (4 - 52)) = 30"
    by (simp add: py_int_def pow2_def)
  have n: "float_of_int (367 * 2000 - 3500 + 30 + 1) = Some (of_int (6275213507428352) * pow2 (19 - 52))"
  proof -
    have "flt (of_int (367 * 2000 - 3500 + 30 + 1)) = Some (of_int (6275213507428352) * pow2 (19 - 52))"
      by (rule flt_eval [where e = "19"]) (simp_all add: pow2_def power_divide)
    then show ?thesis by (simp add: float_of_int_def)
  qed
  have l: "literal (1721013.5) = (of_int (7391696698474496) * pow2 (20 - 52))"
    unfolding literal_def by (rule fl_eval [where e = "20"]) (simp_all add: pow2_def)
  have s: "fadd (of_int (6275213507428352) * pow2 (19 - 52)) (of_int (7391696698474496) * pow2 (20 - 52)) = Some (of_int (5264651726094336) * pow2 (21 - 52))"
  proof -
    have "flt ((of_int (6275213507428352) * pow2 (19 - 52)) + (of_int (7391696698474496) * pow2 (20 - 52))) = Some (of_int (5264651726094336) * pow2 (21 - 52))"
      by (rule flt_eval [where e = "21"]) (simp_all add: pow2_def power_divide)
    then show ?thesis by (simp add: fadd_def)
  qed
  show ?thesis
    by (simp only: J0_def a pa b pb c pc n l s  Option.bind.simps)
qed

lemma T0_y2000:
  "T0 2000 1 1 = Some (of_int (- 8080709245156819) * pow2 (- 17 - 52))"
proof -
  have d: "fsub (of_int (5264651726094336) * pow2 (21 - 52)) 2451545 = Some (of_int (- 4503599627370496) * pow2 (- 1 - 52))"
  proof -
    have "flt ((of_int (5264651726094336) * pow2 (21 - 52)) - 2451545) = Some (of_int (- 4503599627370496) * pow2 (- 1 - 52))"
      by (rule flt_eval [where e = "- 1"]) (simp_all add: pow2_def power_divide)
    then show ?thesis by (simp add: fsub_def)
  qed
  have q: "fdiv (of_int (- 4503599627370496) * pow2 (- 1 - 52)) 36525 = Some (of_int (- 8080709245156819) * pow2 (- 17 - 52))"
  proof -
    have "flt ((of_int (- 4503599627370496) * pow2 (- 1 - 52)) / 36525) = Some (of_int (- 8080709245156819) * pow2 (- 17 - 52))"
      by (rule flt_eval [where e = "- 17"]) (simp_all add: pow2_def power_divide)
    then show ?thesis by (simp add: fdiv_def)
  qed
  show ?thesis
    by (simp only: T0_def d q J0_y2000 Option.bind.simps)
qed

lemma teta_g0_y2000:
  "teta_g0 2000 1 1 = Some (of_int (7034608172448843) * pow2 (6 - 52))"
proof -
  have l2: "literal (36000.77004) = (of_int (4947908158483732) * pow2 (15 - 52))"
    unfolding literal_def by (rule fl_eval [where e = "15"]) (simp_all add: pow2_def)
  have l1: "literal (100.4606184) = (of_int (7069287556119525) * pow2 (6 - 52))"
    unfolding literal_def by (rule fl_eval [where e = "6"]) (simp_all add: pow2_def)
  have l3: "literal (0.000387933) = (of_int (7156100768746367) * pow2 (- 12 - 52))"
    unfolding literal_def by (rule fl_eval [where e = "- 12"]) (simp_all add: pow2_def)
  have l4: "literal (2.583) = (of_int (5816398918748996) * pow2 (1 - 52))"
    unfolding literal_def by (rule fl_eval [where e = "1"]) (simp_all add: pow2_def)
  have l5: "literal (1 / 10 ^ 8) = (of_int (6044629098073146) * pow2 (- 27 - 52))"
    unfolding literal_def by (rule fl_eval [where e = "- 27"]) (simp_all add: pow2_def)
  have a: "fmul (of_int (4947908158483732) * pow2 (15 - 52)) (of_int (- 8080709245156819) * pow2 (- 17 - 52)) = Some (of_int (- 8877922219695821) * pow2 (- 2 - 52))"
  proof -
    have "flt ((of_int (4947908158483732) * pow2 (15 - 52)) * (of_int (- 8080709245156819) * pow2 (- 17 - 52))) = Some (of_int (- 8877922219695821) * pow2 (- 2 - 52))"
      by (rule flt_eval [where e = "- 2"]) (simp_all add: pow2_def power_divide)
    then show ?thesis by (simp add: fmul_def)
  qed
  have b: "fadd (of_int (7069287556119525) * pow2 (6 - 52)) (of_int (- 8877922219695821) * pow2 (- 2 - 52)) = Some (of_int (7034608172448838) * pow2 (6 - 52))"
  proof -
    have "flt ((of_int (7069287556119525) * pow2 (6 - 52)) + (of_int (- 8877922219695821) * pow2 (- 2 - 52))) = Some (of_int (7034608172448838) * pow2 (6 - 52))"
      by (rule flt_eval [where e = "6"]) (simp_all add: pow2_def power_divide)
    then show ?thesis by (simp add: fadd_def)
  qed
  have t2: "fpow (of_int (- 8080709245156819) * pow2 (- 17 - 52)) 2 = Some (of_int (7249518974546164) * pow2 (- 33 - 52))"
  proof -
    have "flt ((of_int (- 8080709245156819) * pow2 (- 17 - 52)) ^ 2) = Some (of_int (7249518974546164) * pow2 (- 33 - 52))"
      by (rule flt_eval [where e = "- 33"]) (simp_all add: pow2_def power_divide)
    then show ?thesis by (simp add: fpow_def)
  qed
  have c: "fmul (of_int (7156100768746367) * pow2 (- 12 - 52)) (of_int (7249518974546164) * pow2 (- 33 - 52)) = Some (of_int (5759647015634159) * pow2 (- 44 - 52))"
  proof -
    have "flt ((of_int (7156100768746367) * pow2 (- 12 - 52)) * (of_int (7249518974546164) * pow2 (- 33 - 52))) = Some (of_int (5759647015634159) * pow2 (- 44 - 52))"
      by (rule flt_eval [where e = "- 44"]) (simp_all add: pow2_def power_divide)
    then show ?thesis by (simp add: fmul_def)
  qed
  have d: "fadd (of_int (7034608172448838) * pow2 (6 - 52)) (of_int (5759647015634159) * pow2 (- 44 - 52)) = Some (of_int (7034608172448843) * pow2 (6 - 52))"
  proof -
    have "flt ((of_int (7034608172448838) * pow2 (6 - 52)) + (of_int (5759647015634159) * pow2 (- 44 - 52))) = Some (of_int (7034608172448843) * pow2 (6 - 52))"
      by (rule flt_eval [where e = "6"]) (simp_all add: pow2_def power_divide)
    then show ?thesis by (simp add: fadd_def)
  qed
  have k: "fmul (of_int (5816398918748996) * pow2 (1 - 52)) (of_int (6044629098073146) * pow2 (- 27 - 52)) = Some (of_int (7806638480161469) * pow2 (- 26 - 52))"
  proof -
    have "flt ((of_int (5816398918748996) * pow2 (1 - 52)) * (of_int (6044629098073146) * pow2 (- 27 - 52))) = Some (of_int (7806638480161469) * pow2 (- 26 - 52))"
      by (rule flt_eval [where e = "- 26"]) (simp_all add: pow2_def power_divide)
    then show ?thesis by (simp add: fmul_def)
  qed
  have t3: "fpow (of_int (- 8080709245156819) * pow2 (- 17 - 52)) 3 = Some (of_int (- 6503825811305371) * pow2 (- 49 - 52))"
  proof -
    have "flt ((of_int (- 8080709245156819) * pow2 (- 17 - 52)) ^ 3) = Some (of_int (- 6503825811305371) * pow2 (- 49 - 52))"
      by (rule flt_eval [where e = "- 49"]) (simp_all add: pow2_def power_divide)
    then show ?thesis by (simp add: fpow_def)
  qed
  have e: "fmul (of_int (7806638480161469) * pow2 (- 26 - 52)) (of_int (- 6503825811305371) * pow2 (- 49 - 52)) = Some (of_int (- 5636937233300265) * pow2 (- 74 - 52))"
  proof -
    have "flt ((of_int (7806638480161469) * pow2 (- 26 - 52)) * (of_int (- 6503825811305371) * pow2 (- 49 - 52))) = Some (of_int (- 5636937233300265) * pow2 (- 74 - 52))"
      by (rule flt_eval [where e = "- 74"]) (simp_all add: pow2_def power_divide)
    then show ?thesis by (simp add: fmul_def)
  qed
  have r: "fsub (of_int (7034608172448843) * pow2 (6 - 52)) (of_int (- 5636937233300265) * pow2 (- 74 - 52)) = Some (of_int (7034608172448843) * pow2 (6 - 52))"
  proof -
    have "flt ((of_int (7034608172448843) * pow2 (6 - 52)) - (of_int (- 5636937233300265) * pow2 (- 74 - 52))) = Some (of_int (7034608172448843) * pow2 (6 - 52))"
      by (rule flt_eval [where e = "6"]) (simp_all add: pow2_def power_divide)
    then show ?thesis by (simp add: fsub_def)
  qed
  show ?thesis
    by (simp only: teta_g0_def l2 l1 l3 l4 l5 a b t2 c d k t3 e r T0_y2000 Option.bind.simps)
qed

lemma teta_g_y2000:
  "teta_g 2000 1 1 0 0 0 = Some (of_int (7034608172448843) * pow2 (6 - 52))"
proof -
  have f: "fdiv 0 24 = Some 0"
  proof -
    have "flt (0 / 24) = Some 0"
      by (simp add: flt_zero)
    then show ?thesis by (simp add: fdiv_def)
  qed
  have l6: "literal (360.98564724) = (of_int (6350526665610005) * pow2 (8 - 52))"
    unfolding literal_def by (rule fl_eval [where e = "8"]) (simp_all add: pow2_def)
  have r: "fmul (of_int (6350526665610005) * pow2 (8 - 52)) 0 = Some 0"
  proof -
    have "flt ((of_int (6350526665610005) * pow2 (8 - 52)) * 0) = Some 0"
      by (simp add: flt_zero)
    then show ?thesis by (simp add: fmul_def)
  qed
  have g: "fadd (of_int (7034608172448843) * pow2 (6 - 52)) 0 = Some (of_int (7034608172448843) * pow2 (6 - 52))"
  proof -
    have "flt ((of_int (7034608172448843) * pow2 (6 - 52)) + 0) = Some (of_int (7034608172448843) * pow2 (6 - 52))"
      by (rule flt_eval [where e = "6"]) (simp_all add: pow2_def power_divide)
    then show ?thesis by (simp add: fadd_def)
  qed
  show ?thesis
    by (simp only: teta_g_def f l6 r g teta_g0_y2000 UT_midnight Option.bind.simps)
qed

lemma teta_y2000:
  "teta 2000 1 1 0 0 0 (- 99.9677947170432) = Some 360"
proof -
  have "flt (0) = Some 0"
    by (simp add: flt_zero)
  note s = this
  have "flt (- 99.9677947170432) = Some (of_int (- 7034608172448844) * pow2 (6 - 52))"
    by (rule flt_eval [where e = "6"]) (simp_all add: pow2_def power_divide)
  note lon = this
  have sum: "fadd (of_int (7034608172448843) * pow2 (6 - 52)) (of_int (- 7034608172448844) * pow2 (6 - 52)) = Some (of_int (- 4503599627370496) * pow2 (- 46 - 52))"
  proof -
    have "flt ((of_int (7034608172448843) * pow2 (6 - 52)) + (of_int (- 7034608172448844) * pow2 (6 - 52))) = Some (of_int (- 4503599627370496) * pow2 (- 46 - 52))"
      by (rule flt_eval [where e = "- 46"]) (simp_all add: pow2_def power_divide)
    then show ?thesis by (simp add: fadd_def)
  qed
  have md: "float_mod (of_int (- 4503599627370496) * pow2 (- 46 - 52)) 360 = Some 360"
  proof -
    have tr: "py_int ((of_int (- 4503599627370496) * pow2 (- 46 - 52)) / 360) = 0"
      by (rule py_int_zero) (simp_all add: pow2_def)
    have m: "(of_int (- 4503599627370496) * pow2 (- 46 - 52)) - 360 * of_int (py_int ((of_int (- 4503599627370496) * pow2 (- 46 - 52)) / 360)) = (of_int (- 4503599627370496) * pow2 (- 46 - 52))"
      by (simp only: tr of_int_0 mult_zero_right diff_zero)
    have neg: "(of_int (- 4503599627370496) * pow2 (- 46 - 52)) < 0"
      by (simp add: pow2_def)
    have "flt ((of_int (- 4503599627370496) * pow2 (- 46 - 52)) + 360) = Some (of_int (6333186975989760) * pow2 (8 - 52))"
      by (rule flt_eval [where e = "8"]) (simp_all add: pow2_def)
    moreover have "(of_int (6333186975989760) * pow2 (8 - 52)) = (360::real)"
      by (simp add: pow2_def)
    ultimately have up: "flt ((of_int (- 4503599627370496) * pow2 (- 46 - 52)) + 360) = Some 360" by (simp only:)
    have "float_mod (of_int (- 4503599627370496) * pow2 (- 46 - 52)) 360 = flt ((of_int (- 4503599627370496) * pow2 (- 46 - 52)) + 360)"
      using neg by (simp only: float_mod_def Let_def m) simp
    with up show ?thesis by (simp only:)
  qed
  show ?thesis
    by (simp only: teta_def s lon sum md teta_g_y2000 Option.bind.simps)
qed

lemma J0_y2024:
  "J0 2024 1 1 = Some (of_int (5283476567752704) * pow2 (21 - 52))"
proof -
  have a: "int_div (1 + 9) 12 = Some (of_int (7505999378950827) * pow2 (- 1 - 52))"
  proof -
    have "flt (of_int (1 + 9) / of_int 12) = Some (of_int (7505999378950827) * pow2 (- 1 - 52))"
      by (rule flt_eval [where e = "- 1"]) (simp_all add: pow2_def power_divide)
    then show ?thesis by (simp add: int_div_def)
  qed
  have pa: "py_int (of_int (7505999378950827) * pow2 (- 1 - 52)) = 0"
    by (simp add: py_int_def pow2_def)
  have b: "int_div (7 * (2024 + 0)) 4 = Some (of_int (7788940371165184) * pow2 (11 - 52))"
  proof -
    have "flt (of_int (7 * (2024 + 0)) / of_int 4) = Some (of_int (7788940371165184) * pow2 (11 - 52))"
      by (rule flt_eval [where e = "11"]) (simp_all add: pow2_def power_divide)
    then show ?thesis by (simp add: int_div_def)
  qed
  have pb: "py_int (of_int (7788940371165184) * pow2 (11 - 52)) = 3542"
    by (simp add: py_int_def pow2_def)
  have c: "int_div (275 * 1) 9 = Some (of_int (8600624288381156) * pow2 (4 - 52))"
  proof -
    have "flt (of_int (275 * 1) / of_int 9) = Some (of_int (8600624288381156) * pow2 (4 - 52))"
      by (rule flt_eval [where e = "4"]) (simp_all add: pow2_def power_divide)
    then show ?thesis by (simp add: int_div_def)
  qed
  have pc: "py_int (of_int (8600624288381156) * pow2 (4 - 52)) = 30"
    by (simp add: py_int_def pow2_def)
  have n: "float_of_int (367 * 2024 - 3542 + 30 + 1) = Some (of_int (6350512874061824) * pow2 (19 - 52))"
  proof -
    have "flt (of_int (367 * 2024 - 3542 + 30 + 1)) = Some (of_int (6350512874061824) * pow2 (19 - 52))"
      by (rule flt_eval [where e = "19"]) (simp_all add: pow2_def power_divide)
    then show ?thesis by (simp add: float_of_int_def)
  qed
  have l: "literal (1721013.5) = (of_int (7391696698474496) * pow2 (20 - 52))"
    unfolding literal_def by (rule fl_eval [where e = "20"]) (simp_all add: pow2_def)
  have s: "fadd (of_int (6350512874061824) * pow2 (19 - 52)) (of_int (7391696698474496) * pow2 (20 - 52)) = Some (of_int (5283476567752704) * pow2 (21 - 52))"
  proof -
    have "flt ((of_int (6350512874061824) * pow2 (19 - 52)) + (of_int (7391696698474496) * pow2 (20 - 52))) = Some (of_int (5283476567752704) * pow2 (21 - 52))"
      by (rule flt_eval [where e = "21"]) (simp_all add: pow2_def power_divide)
    then show ?thesis by (simp add: fadd_def)
  qed
  show ?thesis
    by (simp only: J0_def a pa b pb c pc n l s  Option.bind.simps)
qed

lemma T0_y2024:
  "T0 2024 1 1 = Some (of_int (8646418077199963) * pow2 (- 3 - 52))"
proof -
  have d: "fsub (of_int (5283476567752704) * pow2 (21 - 52)) 2451545 = Some (of_int (4818884586635264) * pow2 (13 - 52))"
  proof -
    have "flt ((of_int (5283476567752704) * pow2 (21 - 52)) - 2451545) = Some (of_int (4818884586635264) * pow2 (13 - 52))"
      by (rule flt_eval [where e = "13"]) (simp_all add: pow2_def power_divide)
    then show ?thesis by (simp add: fsub_def)
  qed
  have q: "fdiv (of_int (4818884586635264) * pow2 (13 - 52)) 36525 = Some (of_int (8646418077199963) * pow2 (- 3 - 52))"
  proof -
    have "flt ((of_int (4818884586635264) * pow2 (13 - 52)) / 36525) = Some (of_int (8646418077199963) * pow2 (- 3 - 52))"
      by (rule flt_eval [where e = "- 3"]) (simp_all add: pow2_def power_divide)
    then show ?thesis by (simp add: fdiv_def)
  qed
  show ?thesis
    by (simp only: T0_def d q J0_y2024 Option.bind.simps)
qed

lemma teta_g0_y2024:
  "teta_g0 2024 1 1 = Some (of_int (4804949720774303) * pow2 (13 - 52))"
proof -
  have l2: "literal (36000.77004) = (of_int (4947908158483732) * pow2 (15 - 52))"
    unfolding literal_def by (rule fl_eval [where e = "15"]) (simp_all add: pow2_def)
  have l1: "literal (100.4606184) = (of_int (7069287556119525) * pow2 (6 - 52))"
    unfolding literal_def by (rule fl_eval [where e = "6"]) (simp_all add: pow2_def)
  have l3: "literal (0.000387933) = (of_int (7156100768746367) * pow2 (- 12 - 52))"
    unfolding literal_def by (rule fl_eval [where e = "- 12"]) (simp_all add: pow2_def)
  have l4: "literal (2.583) = (of_int (5816398918748996) * pow2 (1 - 52))"
    unfolding literal_def by (rule fl_eval [where e = "1"]) (simp_all add: pow2_def)
  have l5: "literal (1 / 10 ^ 8) = (of_int (6044629098073146) * pow2 (- 27 - 52))"
    unfolding literal_def by (rule fl_eval [where e = "- 27"]) (simp_all add: pow2_def)
  have a: "fmul (of_int (4947908158483732) * pow2 (15 - 52)) (of_int (8646418077199963) * pow2 (- 3 - 52)) = Some (of_int (4749720899459455) * pow2 (13 - 52))"
  proof -
    have "flt ((of_int (4947908158483732) * pow2 (15 - 52)) * (of_int (8646418077199963) * pow2 (- 3 - 52))) = Some (of_int (4749720899459455) * pow2 (13 - 52))"
      by (rule flt_eval [where e = "13"]) (simp_all add: pow2_def power_divide)
    then show ?thesis by (simp add: fmul_def)
  qed
  have b: "fadd (of_int (7069287556119525) * pow2 (6 - 52)) (of_int (4749720899459455) * pow2 (13 - 52)) = Some (of_int (4804949708491639) * pow2 (13 - 52))"
  proof -
    have "flt ((of_int (7069287556119525) * pow2 (6 - 52)) + (of_int (4749720899459455) * pow2 (13 - 52))) = Some (of_int (4804949708491639) * pow2 (13 - 52))"
      by (rule flt_eval [where e = "13"]) (simp_all add: pow2_def power_divide)
    then show ?thesis by (simp add: fadd_def)
  qed
  have t2: "fpow (of_int (8646418077199963) * pow2 (- 3 - 52)) 2 = Some (of_int (8300087902061193) * pow2 (- 5 - 52))"
  proof -
    have "flt ((of_int (8646418077199963) * pow2 (- 3 - 52)) ^ 2) = Some (of_int (8300087902061193) * pow2 (- 5 - 52))"
      by (rule flt_eval [where e = "- 5"]) (simp_all add: pow2_def power_divide)
    then show ?thesis by (simp add: fpow_def)
  qed
  have c: "fmul (of_int (7156100768746367) * pow2 (- 12 - 52)) (of_int (8300087902061193) * pow2 (- 5 - 52)) = Some (of_int (6594310144225904) * pow2 (- 16 - 52))"
  proof -
    have "flt ((of_int (7156100768746367) * pow2 (- 12 - 52)) * (of_int (8300087902061193) * pow2 (- 5 - 52))) = Some (of_int (6594310144225904) * pow2 (- 16 - 52))"
      by (rule flt_eval [where e = "- 16"]) (simp_all add: pow2_def power_divide)
    then show ?thesis by (simp add: fmul_def)
  qed
  have d: "fadd (of_int (4804949708491639) * pow2 (13 - 52)) (of_int (6594310144225904) * pow2 (- 16 - 52)) = Some (of_int (4804949720774499) * pow2 (13 - 52))"
  proof -
    have "flt ((of_int (4804949708491639) * pow2 (13 - 52)) + (of_int (6594310144225904) * pow2 (- 16 - 52))) = Some (of_int (4804949720774499) * pow2 (13 - 52))"
      by (rule flt_eval [where e = "13"]) (simp_all add: pow2_def power_divide)
    then show ?thesis by (simp add: fadd_def)
  qed
  have k: "fmul (of_int (5816398918748996) * pow2 (1 - 52)) (of_int (6044629098073146) * pow2 (- 27 - 52)) = Some (of_int (7806638480161469) * pow2 (- 26 - 52))"
  proof -
    have "flt ((of_int (5816398918748996) * pow2 (1 - 52)) * (of_int (6044629098073146) * pow2 (- 27 - 52))) = Some (of_int (7806638480161469) * pow2 (- 26 - 52))"
      by (rule flt_eval [where e = "- 26"]) (simp_all add: pow2_def power_divide)
    then show ?thesis by (simp add: fmul_def)
  qed
  have t3: "fpow (of_int (8646418077199963) * pow2 (- 3 - 52)) 3 = Some (of_int (7967629897934827) * pow2 (- 7 - 52))"
  proof -
    have "flt ((of_int (8646418077199963) * pow2 (- 3 - 52)) ^ 3) = Some (of_int (7967629897934827) * pow2 (- 7 - 52))"
      by (rule flt_eval [where e = "- 7"]) (simp_all add: pow2_def power_divide)
    then show ?thesis by (simp add: fpow_def)
  qed
  have e: "fmul (of_int (7806638480161469) * pow2 (- 26 - 52)) (of_int (7967629897934827) * pow2 (- 7 - 52)) = Some (of_int (6905632305643008) * pow2 (- 32 - 52))"
  proof -
    have "flt ((of_int (7806638480161469) * pow2 (- 26 - 52)) * (of_int (7967629897934827) * pow2 (- 7 - 52))) = Some (of_int (6905632305643008) * pow2 (- 32 - 52))"
      by (rule flt_eval [where e = "- 32"]) (simp_all add: pow2_def power_divide)
    then show ?thesis by (simp add: fmul_def)
  qed
  have r: "fsub (of_int (4804949720774499) * pow2 (13 - 52)) (of_int (6905632305643008) * pow2 (- 32 - 52)) = Some (of_int (4804949720774303) * pow2 (13 - 52))"
  proof -
    have "flt ((of_int (4804949720774499) * pow2 (13 - 52)) - (of_int (6905632305643008) * pow2 (- 32 - 52))) = Some (of_int (4804949720774303) * pow2 (13 - 52))"
      by (rule flt_eval [where e = "13"]) (simp_all add: pow2_def power_divide)
    then show ?thesis by (simp add: fsub_def)
  qed
  show ?thesis
    by (simp only: teta_g0_def l2 l1 l3 l4 l5 a b t2 c d k t3 e r T0_y2024 Option.bind.simps)
qed

lemma teta_g_y2024:
  "teta_g 2024 1 1 0 0 0 = Some (of_int (4804949720774303) * pow2 (13 - 52))"
proof -
  have f: "fdiv 0 24 = Some 0"
  proof -
    have "flt (0 / 24) = Some 0"
      by (simp add: flt_zero)
    then show ?thesis by (simp add: fdiv_def)
  qed
  have l6: "literal (360.98564724) = (of_int (6350526665610005) * pow2 (8 - 52))"
    unfolding literal_def by (rule fl_eval [where e = "8"]) (simp_all add: pow2_def)
  have r: "fmul (of_int (6350526665610005) * pow2 (8 - 52)) 0 = Some 0"
  proof -
    have "flt ((of_int (6350526665610005) * pow2 (8 - 52)) * 0) = Some 0"
      by (simp add: flt_zero)
    then show ?thesis by (simp add: fmul_def)
  qed
  have g: "fadd (of_int (4804949720774303) * pow2 (13 - 52)) 0 = Some (of_int (4804949720774303) * pow2 (13 - 52))"
  proof -
    have "flt ((of_int (4804949720774303) * pow2 (13 - 52)) + 0) = Some (of_int (4804949720774303) * pow2 (13 - 52))"
      by (rule flt_eval [where e = "13"]) (simp_all add: pow2_def power_divide)
    then show ?thesis by (simp add: fadd_def)
  qed
  show ?thesis
    by (simp only: teta_g_def f l6 r g teta_g0_y2024 UT_midnight Option.bind.simps)
qed

lemma teta_y2024:
  "teta 2024 1 1 0 0 0 (35) = Some (of_int (4755260305156032) * pow2 (7 - 52))"
proof -
  have "flt (0) = Some 0"
    by (simp add: flt_zero)
  note s = this
  have "flt (35) = Some (of_int (4925812092436480) * pow2 (5 - 52))"
    by (rule flt_eval [where e = "5"]) (simp_all add: pow2_def power_divide)
  note lon = this
  have sum: "fadd (of_int (4804949720774303) * pow2 (13 - 52)) (of_int (4925812092436480) * pow2 (5 - 52)) = Some (of_int (4824191174260383) * pow2 (13 - 52))"
  proof -
    have "flt ((of_int (4804949720774303) * pow2 (13 - 52)) + (of_int (4925812092436480) * pow2 (5 - 52))) = Some (of_int (4824191174260383) * pow2 (13 - 52))"
      by (rule flt_eval [where e = "13"]) (simp_all add: pow2_def power_divide)
    then show ?thesis by (simp add: fadd_def)
  qed
  have md: "float_mod (of_int (4824191174260383) * pow2 (13 - 52)) 360 = Some (of_int (4755260305156032) * pow2 (7 - 52))"
  proof -
    have tr: "py_int ((of_int (4824191174260383) * pow2 (13 - 52)) / 360) = 24"
      by (simp add: py_int_def pow2_def)
    have m: "(of_int (4824191174260383) * pow2 (13 - 52)) - 360 * of_int (py_int ((of_int (4824191174260383) * pow2 (13 - 52)) / 360)) = (of_int (4755260305156032) * pow2 (7 - 52))"
      by (simp only: tr) (simp add: pow2_def)
    have pos: "0 < (of_int (4755260305156032) * pow2 (7 - 52))"
      by (simp add: pow2_def)
    show ?thesis
      using pos by (simp only: float_mod_def Let_def m) simp
  qed
  show ?thesis
    by (simp only: teta_def s lon sum md teta_g_y2024 Option.bind.simps)
qed

text \<open>
  Claim C10, as the code has it.  Whenever the computation gives a finite float, the local
  sidereal time is at least 0 and at most 360: the upper end is included, since the
  addition of 360 to a small negative remainder rounds to 360.
\<close>

theorem teta_range:
  "teta year month day hour minute second longitude = Some t \<Longrightarrow> 0 \<le> t \<and> t \<le> 360"
  by (auto simp: teta_def float_mod_range split: Option.bind_splits)

theorem teta_range_witness:
  "teta 2024 1 1 0 0 0 35 = Some (of_int (4755260305156032) * pow2 (7 - 52))
   \<and> 0 \<le> (of_int (4755260305156032) * pow2 (7 - 52))
   \<and> (of_int (4755260305156032) * pow2 (7 - 52)) \<le> 360"
  using teta_range [OF teta_y2024] teta_y2024 by simp

text \<open>
  Claim C10 as stated fails: on 2000-01-01 at 00:00:00 with longitude -99.9677947170432
  the sum of the Greenwich sidereal time and the longitude is \<open>- 2 ^ -46\<close>, and the
  result is exactly 360, outside the half-open range.
\<close>

theorem lst_reaches_360:
  "teta 2000 1 1 0 0 0 (- 99.9677947170432) = Some 360 \<and> \<not> (360 :: real) < 360"
  using teta_y2000 by simp

section \<open>Properties of the combinator and the scanner\<close>


lemma negated_eq_Some: "(negated g t = Some v) = (g t = Some (- v))"
  by (cases "g t") (auto simp: negated_def)

lemma negated_eq_None: "(negated g t = None) = (g t = None)"
  by (simp add: negated_def)








lemma reversed_reversed: "reversed (reversed d) = d"
  by (cases d) simp_all

lemma mirrors_sym: "mirrors cfg g occ' occ \<Longrightarrow> mirrors cfg (negated g) occ occ'"
  by (auto simp: mirrors_def negated_def reversed_reversed)

lemma mirrored_sym: "mirrored cfg g res' res \<Longrightarrow> mirrored cfg (negated g) res res'"
  unfolding mirrored_def
  by (auto simp: list_all2_conv_all_nth mirrors_sym)












end
